theory Spec2Isabelle
  imports
    Complex_Main
    "HOL-Library.AList"
    "HOL-Library.Char_ord"
    "HOL-Library.List_Lexorder"
    "HOL-Library.Product_Lexorder"
begin

section \<open>Python values used by \<^verbatim>\<open>scripts/odds_compact.py\<close>\<close>

text \<open>
  A Python \<^verbatim>\<open>str\<close> is modelled as a HOL \<open>string\<close> whose characters are the code
  points below 256. On these code points \<^verbatim>\<open>str.lower\<close>, the classes \<^verbatim>\<open>\d\<close> and
  \<^verbatim>\<open>\s\<close> and case-insensitive matching are the tables below; Python's tables for
  code points from 256 on are outside the model.

  Exceptions are values of \<open>py_error\<close>; a function that can raise returns
  \<open>py_error + 'a\<close> with \<open>Inl\<close> for the exception.
\<close>

datatype py_error = TypeError | FileNotFoundError | PermissionError | OSError

definition py_lower_char :: "char \<Rightarrow> char" where
  "py_lower_char c =
     (let n = (of_char c :: nat)
      in if (65 \<le> n \<and> n \<le> 90) \<or> (192 \<le> n \<and> n \<le> 214) \<or> (216 \<le> n \<and> n \<le> 222)
         then char_of (n + 32) else c)"

definition py_lower :: "string \<Rightarrow> string" where
  "py_lower s = map py_lower_char s"

definition is_digit :: "char \<Rightarrow> bool" where
  "is_digit c = (let n = (of_char c :: nat) in 48 \<le> n \<and> n \<le> 57)"

definition is_space :: "char \<Rightarrow> bool" where
  "is_space c =
     (let n = (of_char c :: nat)
      in (9 \<le> n \<and> n \<le> 13) \<or> (28 \<le> n \<and> n \<le> 32) \<or> n = 133 \<or> n = 160)"

fun startswith :: "string \<Rightarrow> string \<Rightarrow> bool" where
  "startswith s [] = True"
| "startswith [] (p # ps) = False"
| "startswith (c # cs) (p # ps) = (c = p \<and> startswith cs ps)"

definition endswith :: "string \<Rightarrow> string \<Rightarrow> bool" where
  "endswith s suf = startswith (rev s) (rev suf)"

fun tails :: "string \<Rightarrow> string list" where
  "tails [] = [[]]"
| "tails (c # cs) = (c # cs) # tails cs"

text \<open>\<^verbatim>\<open>sub in s\<close> on strings.\<close>

definition py_in :: "string \<Rightarrow> string \<Rightarrow> bool" where
  "py_in sub s = list_ex (\<lambda>t. startswith t sub) (tails s)"

text \<open>Truthiness of an optional string: \<^verbatim>\<open>None\<close> and \<^verbatim>\<open>""\<close> are false.\<close>

definition truthy :: "string option \<Rightarrow> bool" where
  "truthy v = (case v of None \<Rightarrow> False | Some s \<Rightarrow> s \<noteq> [])"

text \<open>\<^verbatim>\<open>str(d.get(key, ""))\<close> for a key holding a string when present.\<close>

definition str_or_empty :: "string option \<Rightarrow> string" where
  "str_or_empty v = (case v of None \<Rightarrow> [] | Some s \<Rightarrow> s)"

text \<open>
  \<^verbatim>\<open>float(tok)\<close> on the tokens \<^verbatim>\<open>-?\d+(?:\.\d+)?\<close> can produce: the decimal's exact
  value (binary rounding is not modelled). Any other text is the \<^verbatim>\<open>except\<close> branch.
\<close>

definition nat_of_digits :: "string \<Rightarrow> nat" where
  "nat_of_digits ds = foldl (\<lambda>a c. 10 * a + (of_char c - 48)) 0 ds"

definition py_float :: "string \<Rightarrow> rat option" where
  "py_float s =
     (let neg = (s \<noteq> [] \<and> hd s = CHR ''-'');
          body = (if neg then tl s else s);
          ip = takeWhile is_digit body;
          rest = dropWhile is_digit body;
          sgn = (if neg then - 1 else 1 :: rat)
      in if ip = [] then None
         else (case rest of
                 [] \<Rightarrow> Some (sgn * of_nat (nat_of_digits ip))
               | d # fp \<Rightarrow>
                   if d = CHR ''.'' \<and> fp \<noteq> [] \<and> list_all is_digit fp
                   then Some (sgn * (of_nat (nat_of_digits ip)
                                     + of_nat (nat_of_digits fp) / 10 ^ length fp))
                   else None))"

section \<open>Regular expressions\<close>

text \<open>
  The constructs the script's patterns use. \<open>ends ic n r s\<close> lists, in the order a
  backtracking matcher tries them, the remainders of \<open>s\<close> after each way \<open>r\<close> can match
  a prefix of it; \<open>n\<close> is the length of the whole subject (for \<^verbatim>\<open>^\<close>) and \<open>ic\<close> is
  \<^verbatim>\<open>re.I\<close>. A star is greedy; \<^verbatim>\<open>$\<close> matches at the end and before a final newline;
  \<^verbatim>\<open>.\<close> matches anything but a newline.
\<close>

datatype rx =
    Eps
  | Lit char
  | Digit
  | Space
  | AnyCh
  | Seq rx rx
  | Alt rx rx
  | Star rx
  | Bol
  | Eol
  | NotAhead rx

fun ends :: "bool \<Rightarrow> nat \<Rightarrow> rx \<Rightarrow> string \<Rightarrow> string list" where
  "ends ic n Eps s = [s]"
| "ends ic n (Lit c) s =
     (case s of
        [] \<Rightarrow> []
      | t # ts \<Rightarrow>
          if (if ic then py_lower_char t = py_lower_char c else t = c) then [ts] else [])"
| "ends ic n Digit s = (case s of [] \<Rightarrow> [] | t # ts \<Rightarrow> if is_digit t then [ts] else [])"
| "ends ic n Space s = (case s of [] \<Rightarrow> [] | t # ts \<Rightarrow> if is_space t then [ts] else [])"
| "ends ic n AnyCh s = (case s of [] \<Rightarrow> [] | t # ts \<Rightarrow> if t \<noteq> CHR 0x0A then [ts] else [])"
| "ends ic n (Seq a b) s = concat (map (ends ic n b) (ends ic n a s))"
| "ends ic n (Alt a b) s = ends ic n a s @ ends ic n b s"
| "ends ic n (Star a) s =
     concat (map (ends ic n (Star a)) (filter (\<lambda>r. length r < length s) (ends ic n a s))) @ [s]"
| "ends ic n Bol s = (if length s = n then [s] else [])"
| "ends ic n Eol s = (if s = [] \<or> s = [CHR 0x0A] then [s] else [])"
| "ends ic n (NotAhead a) s = (if ends ic n a s = [] then [s] else [])"

definition lits :: "string \<Rightarrow> rx" where
  "lits s = foldr (\<lambda>c r. Seq (Lit c) r) s Eps"

definition Opt :: "rx \<Rightarrow> rx" where
  "Opt r = Alt r Eps"

definition Plus :: "rx \<Rightarrow> rx" where
  "Plus r = Seq r (Star r)"

fun seqs :: "rx list \<Rightarrow> rx" where
  "seqs [] = Eps"
| "seqs [r] = r"
| "seqs (r # rs) = Seq r (seqs rs)"

text \<open>A compiled pattern: the \<^verbatim>\<open>re.I\<close> flag and the expression.\<close>

type_synonym pattern = "bool \<times> rx"

text \<open>
  \<^verbatim>\<open>re.search\<close>: the first start position with a match; the result is group 0.
  \<^verbatim>\<open>re.match\<close>: a match at position 0. A match object is always true.
\<close>

definition re_search :: "pattern \<Rightarrow> string \<Rightarrow> string option" where
  "re_search p s =
     (case find (\<lambda>t. ends (fst p) (length s) (snd p) t \<noteq> []) (tails s) of
        None \<Rightarrow> None
      | Some t \<Rightarrow> Some (take (length t - length (hd (ends (fst p) (length s) (snd p) t))) t))"

definition re_found :: "pattern \<Rightarrow> string \<Rightarrow> bool" where
  "re_found p s = (re_search p s \<noteq> None)"

definition re_match :: "pattern \<Rightarrow> string \<Rightarrow> bool" where
  "re_match p s = (ends (fst p) (length s) (snd p) s \<noteq> [])"

subsection \<open>The script's patterns\<close>

text \<open>\<^verbatim>\<open>^(match\s*winner|1x2|win\s*draw\s*win)$\<close>, \<^verbatim>\<open>re.I\<close>\<close>

definition RX_MATCH_WINNER :: pattern where
  "RX_MATCH_WINNER =
     (True, seqs [Bol,
                  Alt (seqs [lits ''match'', Star Space, lits ''winner''])
                      (Alt (lits ''1x2'')
                           (seqs [lits ''win'', Star Space, lits ''draw'', Star Space, lits ''win''])),
                  Eol])"

text \<open>\<^verbatim>\<open>(over\s*/\s*under|totals?)\<close>, \<^verbatim>\<open>re.I\<close>\<close>

definition RX_OVER_UNDER :: pattern where
  "RX_OVER_UNDER =
     (True, Alt (seqs [lits ''over'', Star Space, Lit CHR ''/'', Star Space, lits ''under''])
                (seqs [lits ''total'', Opt (Lit CHR ''s'')]))"

text \<open>\<^verbatim>\<open>(^both\s*teams\s*to\s*score$|^BTTS$)\<close>, \<^verbatim>\<open>re.I\<close>\<close>

definition RX_BTTS :: pattern where
  "RX_BTTS =
     (True, Alt (seqs [Bol, lits ''both'', Star Space, lits ''teams'', Star Space, lits ''to'',
                       Star Space, lits ''score'', Eol])
                (seqs [Bol, lits ''BTTS'', Eol]))"

text \<open>\<^verbatim>\<open>(^asian\s*handicap$|^handicap(?!.*corners|.*cards))\<close>, \<^verbatim>\<open>re.I\<close>\<close>

definition RX_HANDICAP :: pattern where
  "RX_HANDICAP =
     (True, Alt (seqs [Bol, lits ''asian'', Star Space, lits ''handicap'', Eol])
                (seqs [Bol, lits ''handicap'',
                       NotAhead (Alt (seqs [Star AnyCh, lits ''corners''])
                                     (seqs [Star AnyCh, lits ''cards'']))]))"

text \<open>\<^verbatim>\<open>^(1(st)?|first)\s*half\s*(winner|1x2)\<close>, \<^verbatim>\<open>re.I\<close>\<close>

definition RX_FIRST_HALF_WIN :: pattern where
  "RX_FIRST_HALF_WIN =
     (True, seqs [Bol,
                  Alt (seqs [Lit CHR ''1'', Opt (lits ''st'')]) (lits ''first''),
                  Star Space, lits ''half'', Star Space,
                  Alt (lits ''winner'') (lits ''1x2'')])"

text \<open>\<^verbatim>\<open>-?\d+(?:\.\d+)?\<close>\<close>

definition rx_number :: pattern where
  "rx_number =
     (False, seqs [Opt (Lit CHR ''-''), Plus Digit, Opt (seqs [Lit CHR ''.'', Plus Digit])])"

text \<open>\<^verbatim>\<open>draw\<close>, \<^verbatim>\<open>home\<close>, \<^verbatim>\<open>away\<close> with \<^verbatim>\<open>re.I\<close>; \<^verbatim>\<open>(?i)^over\<close>, \<^verbatim>\<open>(?i)^under\<close>\<close>

definition rx_draw :: pattern where
  "rx_draw = (True, lits ''draw'')"

definition rx_home :: pattern where
  "rx_home = (True, lits ''home'')"

definition rx_away :: pattern where
  "rx_away = (True, lits ''away'')"

definition rx_over :: pattern where
  "rx_over = (True, seqs [Bol, lits ''over''])"

definition rx_under :: pattern where
  "rx_under = (True, seqs [Bol, lits ''under''])"

text \<open>\<^verbatim>\<open>-?1(?:\.0)?$\<close> and \<^verbatim>\<open>(?i)^home\s*-1(?:\.0)?$\<close>\<close>

definition rx_home_line :: pattern where
  "rx_home_line = (False, seqs [Opt (Lit CHR ''-''), Lit CHR ''1'', Opt (lits ''.0''), Eol])"

definition rx_home_m1_label :: pattern where
  "rx_home_m1_label =
     (True, seqs [Bol, lits ''home'', Star Space, lits ''-1'', Opt (lits ''.0''), Eol])"

text \<open>\<^verbatim>\<open>^\+?1(?:\.0)?$\<close> and \<^verbatim>\<open>(?i)^away\s*\+1(?:\.0)?$\<close>\<close>

definition rx_away_line :: pattern where
  "rx_away_line = (False, seqs [Bol, Opt (Lit CHR ''+''), Lit CHR ''1'', Opt (lits ''.0''), Eol])"

definition rx_away_p1_label :: pattern where
  "rx_away_p1_label =
     (True, seqs [Bol, lits ''away'', Star Space, lits ''+1'', Opt (lits ''.0''), Eol])"

section \<open>The odds feed\<close>

text \<open>
  The JSON objects of the odds response, with the keys the script reads. A key holds a
  string when present; \<open>None\<close> is an absent key, and an absent list is \<open>[]\<close>
  (\<^verbatim>\<open>x.get("values") or []\<close>). Every bet and outcome of the feed is a non-empty object.
\<close>

record outcome =
  ov_value :: "string option"
  ov_odd :: "string option"
  ov_handicap :: "string option"

record bet =
  bet_name :: "string option"
  bet_values :: "outcome list"

record book =
  book_name :: "string option"
  book_bets :: "bet list"

text \<open>JSON values written to the result, and a \<^verbatim>\<open>dict\<close> as an insertion-ordered list.\<close>

datatype jval = JNull | JStr string

type_synonym market = "(string \<times> jval) list"

type_synonym markets = "(string \<times> market) list"

definition j_of :: "string option \<Rightarrow> jval" where
  "j_of v = (case v of None \<Rightarrow> JNull | Some s \<Rightarrow> JStr s)"

definition PREFERRED_BOOKMAKERS :: "string list" where
  "PREFERRED_BOOKMAKERS =
     [''Pinnacle'', ''bet365'', ''Betfair'', ''Betway'', ''William Hill'', ''Bwin'']"

section \<open>Parsing helpers\<close>

text \<open>\<^verbatim>\<open>str(v.get("value", ""))\<close> and \<^verbatim>\<open>str(v.get("handicap") or v.get("value", ""))\<close>\<close>

definition value_str :: "outcome \<Rightarrow> string" where
  "value_str v = str_or_empty (ov_value v)"

definition line_str :: "outcome \<Rightarrow> string" where
  "line_str v = (if truthy (ov_handicap v) then str_or_empty (ov_handicap v) else value_str v)"

definition val_eq :: "string \<Rightarrow> outcome \<Rightarrow> bool" where
  "val_eq v ov = (let lv = py_lower v in py_lower (value_str ov) = lv)"

definition line_from :: "outcome option \<Rightarrow> string" where
  "line_from v =
     (case v of
        None \<Rightarrow> []
      | Some ov \<Rightarrow>
          let h = str_or_empty (ov_handicap ov)
          in if h \<noteq> [] then h
             else (case re_search rx_number (value_str ov) of Some g \<Rightarrow> g | None \<Rightarrow> []))"

text \<open>
  The third argument of \<^verbatim>\<open>_nearest_to\<close> is whatever object the caller passes; calling
  an object that is not callable raises \<^verbatim>\<open>TypeError\<close>.
\<close>

datatype pyobj = PyFloat rat | PyFun "outcome \<Rightarrow> bool"

definition py_call :: "pyobj \<Rightarrow> outcome \<Rightarrow> py_error + bool" where
  "py_call f ov = (case f of PyFun g \<Rightarrow> Inr (g ov) | PyFloat x \<Rightarrow> Inl TypeError)"

text \<open>The loop of \<^verbatim>\<open>_nearest_to\<close>; its state is \<^verbatim>\<open>(best, best_dist)\<close>.\<close>

fun nearest_loop ::
  "rat \<Rightarrow> pyobj \<Rightarrow> outcome list \<Rightarrow> (outcome \<times> rat) option \<Rightarrow> py_error + (outcome \<times> rat) option"
where
  "nearest_loop target predicate [] st = Inr st"
| "nearest_loop target predicate (ov # arr) st =
     (case py_call predicate ov of
        Inl e \<Rightarrow> Inl e
      | Inr ok \<Rightarrow>
          if \<not> ok then nearest_loop target predicate arr st
          else (case re_search rx_number (line_str ov) of
                  None \<Rightarrow> nearest_loop target predicate arr st
                | Some tok \<Rightarrow>
                    (case py_float tok of
                       None \<Rightarrow> nearest_loop target predicate arr st
                     | Some n \<Rightarrow>
                         let d = \<bar>n - target\<bar>
                         in if (case st of None \<Rightarrow> True | Some (best, best_dist) \<Rightarrow> d < best_dist)
                            then nearest_loop target predicate arr (Some (ov, d))
                            else nearest_loop target predicate arr st)))"

definition nearest_to :: "rat \<Rightarrow> outcome list \<Rightarrow> pyobj \<Rightarrow> py_error + outcome option" where
  "nearest_to target arr predicate =
     (case nearest_loop target predicate arr None of
        Inl e \<Rightarrow> Inl e
      | Inr st \<Rightarrow> Inr (map_option fst st))"

section \<open>Bookmaker ranking\<close>

text \<open>\<^verbatim>\<open>list.index\<close>, \<open>None\<close> where Python raises \<^verbatim>\<open>ValueError\<close>.\<close>

fun py_index :: "'a list \<Rightarrow> 'a \<Rightarrow> nat option" where
  "py_index [] x = None"
| "py_index (y # ys) x = (if y = x then Some 0 else map_option Suc (py_index ys x))"

text \<open>\<^verbatim>\<open>next((b for b in bets if bet_name_rx.search(str(b.get("name", "")))), None)\<close>\<close>

definition first_bet :: "pattern \<Rightarrow> book \<Rightarrow> bet option" where
  "first_bet bet_name_rx bk =
     find (\<lambda>b. re_found bet_name_rx (str_or_empty (bet_name b))) (book_bets bk)"

definition pref_rank :: "string \<Rightarrow> nat" where
  "pref_rank name =
     (case py_index PREFERRED_BOOKMAKERS name of
        Some i \<Rightarrow> i
      | None \<Rightarrow> length PREFERRED_BOOKMAKERS + 1)"

definition score_of :: "book \<Rightarrow> bet \<Rightarrow> int" where
  "score_of bk b =
     (let name = str_or_empty (book_name bk);
          richness = length (bet_values b)
      in (int (length PREFERRED_BOOKMAKERS) + 2 - int (pref_rank name)) * 100 + int richness)"

text \<open>The loop of \<^verbatim>\<open>_pick_bookmaker\<close>; its state is \<^verbatim>\<open>(best, best_score)\<close>.\<close>

fun pick_loop ::
  "pattern \<Rightarrow> book list \<Rightarrow> ((book \<times> bet) \<times> int) option \<Rightarrow> ((book \<times> bet) \<times> int) option"
where
  "pick_loop bet_name_rx [] st = st"
| "pick_loop bet_name_rx (bk # books) st =
     (case first_bet bet_name_rx bk of
        None \<Rightarrow> pick_loop bet_name_rx books st
      | Some b \<Rightarrow>
          let score = score_of bk b
          in if (case st of None \<Rightarrow> True | Some (best, best_score) \<Rightarrow> score > best_score)
             then pick_loop bet_name_rx books (Some ((bk, b), score))
             else pick_loop bet_name_rx books st)"

definition pick_bookmaker :: "book list \<Rightarrow> pattern \<Rightarrow> (book \<times> bet) option" where
  "pick_bookmaker books bet_name_rx = map_option fst (pick_loop bet_name_rx books None)"

section \<open>Market extraction\<close>

text \<open>\<^verbatim>\<open>next((v.get("odd") for v in vals if cond(v)), None)\<close>\<close>

definition next_odd :: "(outcome \<Rightarrow> bool) \<Rightarrow> outcome list \<Rightarrow> string option" where
  "next_odd cond vals = (case find cond vals of None \<Rightarrow> None | Some v \<Rightarrow> ov_odd v)"

definition extract_match_winner :: "book list \<Rightarrow> markets \<Rightarrow> markets" where
  "extract_match_winner books out =
     (case pick_bookmaker books RX_MATCH_WINNER of
        None \<Rightarrow> out
      | Some (bk, b) \<Rightarrow>
          let vals = bet_values b;
              home = next_odd (\<lambda>v. val_eq ''Home'' v \<or> val_eq ''1'' v) vals;
              draw = next_odd (\<lambda>v. val_eq ''Draw'' v \<or> val_eq ''X'' v
                                   \<or> re_found rx_draw (value_str v)) vals;
              away = next_odd (\<lambda>v. val_eq ''Away'' v \<or> val_eq ''2'' v) vals
          in if truthy home \<or> truthy draw \<or> truthy away
             then AList.update ''matchWinner''
                    [(''home'', j_of home), (''draw'', j_of draw), (''away'', j_of away),
                     (''bookmaker'', j_of (book_name bk))] out
             else out)"

definition is_over :: "outcome \<Rightarrow> bool" where
  "is_over v = re_match rx_over (value_str v)"

definition is_under :: "outcome \<Rightarrow> bool" where
  "is_under v = re_match rx_under (value_str v)"

definition extract_over_under :: "book list \<Rightarrow> markets \<Rightarrow> py_error + markets" where
  "extract_over_under books out =
     (case pick_bookmaker books RX_OVER_UNDER of
        None \<Rightarrow> Inr out
      | Some (bk, b) \<Rightarrow>
          let vals = bet_values b;
              target = (5 / 2 :: rat);
              over_exact = find (\<lambda>v. is_over v \<and> py_in ''2.5'' (line_str v)) vals;
              under_exact = find (\<lambda>v. is_under v \<and> py_in ''2.5'' (line_str v)) vals
          in (case (case over_exact of
                      Some v \<Rightarrow> Inr (Some v)
                    | None \<Rightarrow> nearest_to target (filter is_over vals) (PyFloat target)) of
                Inl e \<Rightarrow> Inl e
              | Inr over_pick \<Rightarrow>
                  (case (case under_exact of
                           Some v \<Rightarrow> Inr (Some v)
                         | None \<Rightarrow> nearest_to target (filter is_under vals) (PyFloat target)) of
                     Inl e \<Rightarrow> Inl e
                   | Inr under_pick \<Rightarrow>
                       if over_pick \<noteq> None \<or> under_pick \<noteq> None
                       then let l = line_from (case over_pick of Some v \<Rightarrow> Some v | None \<Rightarrow> under_pick);
                                line = (if l \<noteq> [] then l else ''2.5'')
                            in Inr (AList.update ''overUnder''
                                      [(''line'', JStr line),
                                       (''over'', j_of (case over_pick of None \<Rightarrow> None | Some v \<Rightarrow> ov_odd v)),
                                       (''under'', j_of (case under_pick of None \<Rightarrow> None | Some v \<Rightarrow> ov_odd v)),
                                       (''bookmaker'', j_of (book_name bk))] out)
                       else Inr out)))"

definition extract_btts :: "book list \<Rightarrow> markets \<Rightarrow> markets" where
  "extract_btts books out =
     (case pick_bookmaker books RX_BTTS of
        None \<Rightarrow> out
      | Some (bk, b) \<Rightarrow>
          let vals = bet_values b;
              yes = next_odd (val_eq ''Yes'') vals;
              no = next_odd (val_eq ''No'') vals
          in if truthy yes \<or> truthy no
             then AList.update ''btts''
                    [(''yes'', j_of yes), (''no'', j_of no), (''bookmaker'', j_of (book_name bk))] out
             else out)"

definition is_home_m1 :: "outcome \<Rightarrow> bool" where
  "is_home_m1 v =
     ((re_found rx_home (value_str v) \<and> re_found rx_home_line (line_str v))
      \<or> re_match rx_home_m1_label (value_str v))"

definition is_away_p1 :: "outcome \<Rightarrow> bool" where
  "is_away_p1 v =
     ((re_found rx_away (value_str v) \<and> re_found rx_away_line (line_str v))
      \<or> re_match rx_away_p1_label (value_str v))"

definition extract_handicap :: "book list \<Rightarrow> markets \<Rightarrow> markets" where
  "extract_handicap books out =
     (case pick_bookmaker books RX_HANDICAP of
        None \<Rightarrow> out
      | Some (bk, b) \<Rightarrow>
          let vals = bet_values b;
              home_m1 = next_odd is_home_m1 vals;
              away_p1 = next_odd is_away_p1 vals
          in if truthy home_m1 \<or> truthy away_p1
             then AList.update ''handicap''
                    [(''homeMinus1'', j_of home_m1), (''awayPlus1'', j_of away_p1),
                     (''bookmaker'', j_of (book_name bk))] out
             else out)"

definition extract_first_half_winner :: "book list \<Rightarrow> markets \<Rightarrow> markets" where
  "extract_first_half_winner books out =
     (case pick_bookmaker books RX_FIRST_HALF_WIN of
        None \<Rightarrow> out
      | Some (bk, b) \<Rightarrow>
          let vals = bet_values b;
              home = next_odd (\<lambda>v. val_eq ''Home'' v \<or> val_eq ''1'' v) vals;
              draw = next_odd (\<lambda>v. val_eq ''Draw'' v \<or> val_eq ''X'' v) vals;
              away = next_odd (\<lambda>v. val_eq ''Away'' v \<or> val_eq ''2'' v) vals
          in if truthy home \<or> truthy draw \<or> truthy away
             then AList.update ''firstHalfWinner''
                    [(''home'', j_of home), (''draw'', j_of draw), (''away'', j_of away),
                     (''bookmaker'', j_of (book_name bk))] out
             else out)"

text \<open>
  \<^verbatim>\<open>extract_markets\<close>: the five blocks in the script's order, starting from the empty
  \<^verbatim>\<open>dict\<close>. An exception of the Over/Under block leaves the function at once.
\<close>

definition extract_markets :: "book list \<Rightarrow> py_error + markets" where
  "extract_markets books =
     (case extract_over_under books (extract_match_winner books []) of
        Inl e \<Rightarrow> Inl e
      | Inr out \<Rightarrow>
          Inr (extract_first_half_winner books (extract_handicap books (extract_btts books out))))"

section \<open>Snapshots and the file system\<close>

text \<open>
  A fixture as the script reads it from the fixtures response, after the kick-off time was
  put in the local time zone and the league label was built (both are string formatting
  outside this development). An absent \<^verbatim>\<open>id\<close> makes \<^verbatim>\<open>int(None)\<close> raise \<^verbatim>\<open>TypeError\<close>.
\<close>

record fixture_in =
  fx_id :: "int option"
  fx_date :: string
  fx_status :: string
  fx_league_id :: "int option"
  fx_league :: string
  fx_home :: "string option"
  fx_away :: "string option"

record fixture_rec =
  r_fixtureId :: int
  r_date :: string
  r_status :: string
  r_leagueId :: int
  r_league :: string
  r_home :: "string option"
  r_away :: "string option"
  r_markets :: markets

record odds_item =
  oi_fixture_id :: "int option"
  oi_bookmakers :: "book list"

record snapshot =
  snap_date :: string
  snap_count :: nat
  snap_items :: "fixture_rec list"

text \<open>
  The world the script runs in: the clock, the files with their modification times, the
  directories, what \<^verbatim>\<open>os.walk\<close> lists under a directory, and which system calls fail
  (\<open>w_fault\<close>). Every system call the script makes is recorded in \<open>w_trace\<close>, every
  printed warning in \<open>w_stdout\<close>. A failing call changes nothing but the trace.
\<close>

datatype io_op =
    MakeDirs string
  | WriteGz string
  | WriteText string
  | Stat string
  | Remove string

datatype content = GzJson snapshot | IndentedJson snapshot | Opaque

record fs_file =
  f_mtime :: real
  f_body :: content

record world =
  w_now :: real
  w_files :: "string \<Rightarrow> fs_file option"
  w_dirs :: "string set"
  w_walk :: "string \<Rightarrow> (string \<times> string list) list"
  w_fault :: "io_op \<Rightarrow> py_error option"
  w_trace :: "io_op list"
  w_stdout :: "(string \<times> py_error) list"

definition attempt :: "io_op \<Rightarrow> world \<Rightarrow> world" where
  "attempt call w = w\<lparr>w_trace := w_trace w @ [call]\<rparr>"

text \<open>\<^verbatim>\<open>os.makedirs(p, exist_ok=True)\<close>\<close>

definition os_makedirs :: "string \<Rightarrow> world \<Rightarrow> world \<times> (py_error + unit)" where
  "os_makedirs p w =
     (let w1 = attempt (MakeDirs p) w
      in case w_fault w (MakeDirs p) of
           Some e \<Rightarrow> (w1, Inl e)
         | None \<Rightarrow> (w1\<lparr>w_dirs := insert p (w_dirs w1)\<rparr>, Inr ()))"

text \<open>Opening a file for writing and dumping the snapshot into it, as one step.\<close>

definition write_file :: "io_op \<Rightarrow> string \<Rightarrow> content \<Rightarrow> world \<Rightarrow> world \<times> (py_error + unit)" where
  "write_file call p body w =
     (let w1 = attempt call w
      in case w_fault w call of
           Some e \<Rightarrow> (w1, Inl e)
         | None \<Rightarrow>
             (w1\<lparr>w_files := (w_files w1)(p \<mapsto> \<lparr>f_mtime = w_now w1, f_body = body\<rparr>)\<rparr>, Inr ()))"

definition os_stat :: "string \<Rightarrow> world \<Rightarrow> world \<times> (py_error + real)" where
  "os_stat p w =
     (let w1 = attempt (Stat p) w
      in case w_fault w (Stat p) of
           Some e \<Rightarrow> (w1, Inl e)
         | None \<Rightarrow>
             (case w_files w p of
                None \<Rightarrow> (w1, Inl FileNotFoundError)
              | Some f \<Rightarrow> (w1, Inr (f_mtime f))))"

definition os_remove :: "string \<Rightarrow> world \<Rightarrow> world \<times> (py_error + unit)" where
  "os_remove p w =
     (let w1 = attempt (Remove p) w
      in case w_fault w (Remove p) of
           Some e \<Rightarrow> (w1, Inl e)
         | None \<Rightarrow>
             (case w_files w p of
                None \<Rightarrow> (w1, Inl FileNotFoundError)
              | Some f \<Rightarrow> (w1\<lparr>w_files := (w_files w1)(p := None)\<rparr>, Inr ())))"

text \<open>\<^verbatim>\<open>os.path.join\<close> on POSIX.\<close>

definition join2 :: "string \<Rightarrow> string \<Rightarrow> string" where
  "join2 path b =
     (if startswith b ''/'' then b
      else if path = [] \<or> endswith path ''/'' then path @ b
      else path @ ''/'' @ b)"

definition os_path_join :: "string \<Rightarrow> string list \<Rightarrow> string" where
  "os_path_join a ps = foldl join2 a ps"

section \<open>Persistence\<close>

text \<open>
  \<^verbatim>\<open>save_snapshot\<close>: the script has no exception handler here, so the first failing
  call ends the function with its exception. (Its parameter \<^verbatim>\<open>gzip_only\<close> is never read.)
\<close>

definition save_snapshot :: "snapshot \<Rightarrow> string \<Rightarrow> world \<Rightarrow> world \<times> (py_error + string)" where
  "save_snapshot out out_dir w =
     (let date_str = snap_date out;
          year = take 4 date_str;
          month = take 2 (drop 5 date_str);
          dir_ym = os_path_join out_dir [year, month];
          r1 = os_makedirs dir_ym w;
          gz_path = os_path_join dir_ym [date_str @ ''.json.gz''];
          latest_path = os_path_join out_dir [''latest.json'']
      in (case snd r1 of
            Inl e \<Rightarrow> (fst r1, Inl e)
          | Inr u1 \<Rightarrow>
              (let r2 = os_makedirs out_dir (fst r1)
               in (case snd r2 of
                     Inl e \<Rightarrow> (fst r2, Inl e)
                   | Inr u2 \<Rightarrow>
                       (let r3 = write_file (WriteGz gz_path) gz_path (GzJson out) (fst r2)
                        in (case snd r3 of
                              Inl e \<Rightarrow> (fst r3, Inl e)
                            | Inr u3 \<Rightarrow>
                                (let r4 = write_file (WriteText latest_path) latest_path
                                            (IndentedJson out) (fst r3)
                                 in (case snd r4 of
                                       Inl e \<Rightarrow> (fst r4, Inl e)
                                     | Inr u4 \<Rightarrow> (fst r4, Inr gz_path)))))))))"

text \<open>
  The \<^verbatim>\<open>except\<close> clauses of the pruning loop: \<^verbatim>\<open>FileNotFoundError\<close> passes, any other
  exception prints a warning.
\<close>

definition prune_except :: "string \<Rightarrow> py_error \<Rightarrow> world \<Rightarrow> world" where
  "prune_except fp e w =
     (if e = FileNotFoundError then w else w\<lparr>w_stdout := w_stdout w @ [(fp, e)]\<rparr>)"

text \<open>The body of the inner loop, for the file name \<open>fn\<close> of the directory \<open>dirpath\<close>.\<close>

definition prune_file :: "real \<Rightarrow> string \<Rightarrow> string \<Rightarrow> world \<times> string list \<Rightarrow> world \<times> string list" where
  "prune_file cutoff dirpath fn st =
     (let w = fst st; removed = snd st
      in if fn = ''latest.json'' then (w, removed)
         else if \<not> endswith fn ''.json.gz'' then (w, removed)
         else (let fp = os_path_join dirpath [fn];
                   r1 = os_stat fp w
               in (case snd r1 of
                     Inl e \<Rightarrow> (prune_except fp e (fst r1), removed)
                   | Inr st_mtime \<Rightarrow>
                       if st_mtime < cutoff
                       then (let r2 = os_remove fp (fst r1)
                             in (case snd r2 of
                                   Inl e \<Rightarrow> (prune_except fp e (fst r2), removed)
                                 | Inr u \<Rightarrow> (fst r2, removed @ [fp])))
                       else (fst r1, removed))))"

definition prune_dir :: "real \<Rightarrow> world \<times> string list \<Rightarrow> string \<times> string list \<Rightarrow> world \<times> string list" where
  "prune_dir cutoff st entry = foldl (\<lambda>acc fn. prune_file cutoff (fst entry) fn acc) st (snd entry)"

definition prune_old_snapshots :: "string \<Rightarrow> int \<Rightarrow> world \<Rightarrow> world \<times> string list" where
  "prune_old_snapshots out_dir retention_days w =
     (if retention_days \<le> 0 then (w, [])
      else let cutoff = w_now w - real_of_int (retention_days * 86400)
           in foldl (prune_dir cutoff) (w, []) (w_walk w out_dir))"

section \<open>The daily pipeline\<close>

type_synonym by_fixture = "(int \<times> fixture_rec) list"

text \<open>The loop that indexes the fixtures by id.\<close>

fun index_fixtures :: "fixture_in list \<Rightarrow> by_fixture \<Rightarrow> py_error + by_fixture" where
  "index_fixtures [] by = Inr by"
| "index_fixtures (f # fs) by =
     (case fx_id f of
        None \<Rightarrow> Inl TypeError
      | Some fid \<Rightarrow>
          (case fx_league_id f of
             None \<Rightarrow> Inl TypeError
           | Some lid \<Rightarrow>
               index_fixtures fs
                 (AList.update fid
                    \<lparr>r_fixtureId = fid, r_date = fx_date f, r_status = fx_status f,
                     r_leagueId = lid, r_league = fx_league f, r_home = fx_home f,
                     r_away = fx_away f, r_markets = []\<rparr> by)))"

text \<open>\<^verbatim>\<open>d.update(other)\<close> and \<^verbatim>\<open>{k: v for k, v in markets.items() if v}\<close>\<close>

definition dict_update :: "('k \<times> 'v) list \<Rightarrow> ('k \<times> 'v) list \<Rightarrow> ('k \<times> 'v) list" where
  "dict_update d other = fold (\<lambda>kv. AList.update (fst kv) (snd kv)) other d"

definition nonempty_items :: "markets \<Rightarrow> markets" where
  "nonempty_items ms = filter (\<lambda>kv. snd kv \<noteq> []) ms"

definition merge_markets :: "markets \<Rightarrow> fixture_rec \<Rightarrow> fixture_rec" where
  "merge_markets ms r = r\<lparr>r_markets := dict_update (r_markets r) (nonempty_items ms)\<rparr>"

definition item_fid :: "odds_item \<Rightarrow> int" where
  "item_fid it = (case oi_fixture_id it of None \<Rightarrow> 0 | Some i \<Rightarrow> i)"

text \<open>The loop over the odds responses.\<close>

fun odds_loop :: "odds_item list \<Rightarrow> by_fixture \<Rightarrow> py_error + by_fixture" where
  "odds_loop [] by = Inr by"
| "odds_loop (it # items) by =
     (let fid = item_fid it
      in if fid = 0 \<or> map_of by fid = None then odds_loop items by
         else (case extract_markets (oi_bookmakers it) of
                 Inl e \<Rightarrow> Inl e
               | Inr ms \<Rightarrow>
                   if ms \<noteq> [] then odds_loop items (AList.map_entry fid (merge_markets ms) by)
                   else odds_loop items by))"

text \<open>
  The part of \<^verbatim>\<open>main\<close> between the fetches and the persistence: \<open>fixtures_all\<close> and
  \<open>odds_all\<close> are the responses of the five leagues, in the order fetched.
\<close>

definition build_snapshot :: "string \<Rightarrow> fixture_in list \<Rightarrow> odds_item list \<Rightarrow> py_error + snapshot" where
  "build_snapshot date_ymd fixtures_all odds_all =
     (case index_fixtures fixtures_all [] of
        Inl e \<Rightarrow> Inl e
      | Inr by0 \<Rightarrow>
          (case odds_loop odds_all by0 of
             Inl e \<Rightarrow> Inl e
           | Inr by1 \<Rightarrow>
               let items_out = sort_key (\<lambda>r. (r_date r, r_leagueId r, r_fixtureId r)) (map snd by1)
               in Inr \<lparr>snap_date = date_ymd, snap_count = length items_out, snap_items = items_out\<rparr>))"

section \<open>The specification's notions\<close>

text \<open>
  The candidates of one market-type rule: each bookmaker that has a bet whose name the
  rule finds, with the first such bet, in the order of the input.
\<close>

definition candidates :: "pattern \<Rightarrow> book list \<Rightarrow> (book \<times> bet) list" where
  "candidates bet_name_rx books =
     List.map_filter (\<lambda>bk. map_option (Pair bk) (first_bet bet_name_rx bk)) books"

text \<open>
  The score as the specification words it: the preference weight is the size of the
  preference list plus two minus the bookmaker's index in it, or one for a bookmaker that
  is not on the list; the score is the weight times 100 plus the number of outcomes.
\<close>

definition spec_preference_weight :: "string \<Rightarrow> int" where
  "spec_preference_weight name =
     (case py_index PREFERRED_BOOKMAKERS name of
        Some i \<Rightarrow> int (length PREFERRED_BOOKMAKERS) + 2 - int i
      | None \<Rightarrow> 1)"

definition spec_score :: "book \<times> bet \<Rightarrow> int" where
  "spec_score c =
     spec_preference_weight (str_or_empty (book_name (fst c))) * 100
       + int (length (bet_values (snd c)))"

definition rank_step ::
  "((book \<times> bet) \<times> int) option \<Rightarrow> book \<times> bet \<Rightarrow> ((book \<times> bet) \<times> int) option"
where
  "rank_step st c =
     (if (case st of None \<Rightarrow> True | Some (best, best_score) \<Rightarrow> spec_score c > best_score)
      then Some (c, spec_score c) else st)"

text \<open>
  The five rules in the order the extractor runs them, each with the key of its market,
  and the fields of the record written under each key.
\<close>

definition market_rules :: "(string \<times> pattern) list" where
  "market_rules =
     [(''matchWinner'', RX_MATCH_WINNER), (''overUnder'', RX_OVER_UNDER), (''btts'', RX_BTTS),
      (''handicap'', RX_HANDICAP), (''firstHalfWinner'', RX_FIRST_HALF_WIN)]"

definition market_fields :: "string \<Rightarrow> string list" where
  "market_fields k =
     (if k = ''matchWinner'' \<or> k = ''firstHalfWinner'' then [''home'', ''draw'', ''away'', ''bookmaker'']
      else if k = ''overUnder'' then [''line'', ''over'', ''under'', ''bookmaker'']
      else if k = ''btts'' then [''yes'', ''no'', ''bookmaker'']
      else if k = ''handicap'' then [''homeMinus1'', ''awayPlus1'', ''bookmaker'']
      else [])"

text \<open>
  An entry \<open>(k, m)\<close> of the result is sourced from the bookmaker selected for the rule of
  \<open>k\<close>: \<open>m\<close> has the fields of \<open>k\<close> and names that bookmaker.
\<close>

definition entry_ok :: "book list \<Rightarrow> string \<Rightarrow> market \<Rightarrow> bool" where
  "entry_ok books k m =
     (case map_of market_rules k of
        None \<Rightarrow> False
      | Some rx \<Rightarrow>
          (case pick_bookmaker books rx of
             None \<Rightarrow> False
           | Some sel \<Rightarrow>
               map fst m = market_fields k
               \<and> map_of m ''bookmaker'' = Some (j_of (book_name (fst sel)))))"

text \<open>
  The system calls of one \<^verbatim>\<open>save_snapshot\<close>, in the order the script makes them, with
  the paths it computes; the calls a world lets it make (up to and including the first one
  that fails there); and the first failure.
\<close>

definition gz_path_of :: "snapshot \<Rightarrow> string \<Rightarrow> string" where
  "gz_path_of out out_dir =
     os_path_join (os_path_join out_dir [take 4 (snap_date out), take 2 (drop 5 (snap_date out))])
       [snap_date out @ ''.json.gz'']"

definition latest_path_of :: "string \<Rightarrow> string" where
  "latest_path_of out_dir = os_path_join out_dir [''latest.json'']"

definition save_calls :: "snapshot \<Rightarrow> string \<Rightarrow> io_op list" where
  "save_calls out out_dir =
     [MakeDirs (os_path_join out_dir [take 4 (snap_date out), take 2 (drop 5 (snap_date out))]),
      MakeDirs out_dir,
      WriteGz (gz_path_of out out_dir),
      WriteText (latest_path_of out_dir)]"

fun attempted :: "world \<Rightarrow> io_op list \<Rightarrow> io_op list" where
  "attempted w [] = []"
| "attempted w (c # cs) = c # (if w_fault w c = None then attempted w cs else [])"

fun first_fault :: "world \<Rightarrow> io_op list \<Rightarrow> py_error option" where
  "first_fault w [] = None"
| "first_fault w (c # cs) = (case w_fault w c of Some e \<Rightarrow> Some e | None \<Rightarrow> first_fault w cs)"

text \<open>The archive path as the specification writes it, and a date of the form YYYY-MM-DD.\<close>

definition spec_archive_path :: "string \<Rightarrow> string \<Rightarrow> string" where
  "spec_archive_path out_dir d =
     out_dir @ ''/'' @ take 4 d @ ''/'' @ take 2 (drop 5 d) @ ''/'' @ d @ ''.json.gz''"

definition is_ymd :: "string \<Rightarrow> bool" where
  "is_ymd d =
     (length d = 10 \<and> list_all is_digit (take 4 d) \<and> d ! 4 = CHR ''-''
      \<and> list_all is_digit (take 2 (drop 5 d)) \<and> d ! 7 = CHR ''-''
      \<and> list_all is_digit (drop 8 d))"

text \<open>
  The files the pruner looks at: every listed name that ends in \<^verbatim>\<open>.json.gz\<close> and is not
  \<^verbatim>\<open>latest.json\<close>, as a path, in the order of the walk. A path is expired when the file
  exists and is older than the cutoff; it is removable when, in addition, neither its
  \<^verbatim>\<open>stat\<close> nor its \<^verbatim>\<open>remove\<close> fails.
\<close>

definition is_archive_name :: "string \<Rightarrow> bool" where
  "is_archive_name fn = (fn \<noteq> ''latest.json'' \<and> endswith fn ''.json.gz'')"

definition walk_pairs :: "(string \<times> string list) list \<Rightarrow> (string \<times> string) list" where
  "walk_pairs entries = concat (map (\<lambda>entry. map (Pair (fst entry)) (snd entry)) entries)"

definition pair_path :: "string \<times> string \<Rightarrow> string" where
  "pair_path df = os_path_join (fst df) [snd df]"

definition prune_candidates :: "world \<Rightarrow> string \<Rightarrow> string list" where
  "prune_candidates w out_dir =
     map pair_path (filter (\<lambda>df. is_archive_name (snd df)) (walk_pairs (w_walk w out_dir)))"

definition spec_cutoff :: "world \<Rightarrow> int \<Rightarrow> real" where
  "spec_cutoff w retention_days = w_now w - real_of_int retention_days * 86400"

definition expired :: "world \<Rightarrow> real \<Rightarrow> string \<Rightarrow> bool" where
  "expired w cutoff p = (case w_files w p of None \<Rightarrow> False | Some f \<Rightarrow> f_mtime f < cutoff)"

definition removable :: "world \<Rightarrow> real \<Rightarrow> string \<Rightarrow> bool" where
  "removable w cutoff p =
     (w_fault w (Stat p) = None \<and> expired w cutoff p \<and> w_fault w (Remove p) = None)"

text \<open>
  Last write wins, per market type: starting from the entry a fixture has for the key
  \<open>k\<close>, each later result that holds a non-empty market under \<open>k\<close> replaces it, and a
  result without one leaves it as it is. \<open>markets_seen\<close> lists the results extracted from the
  odds responses of one fixture, in the order of the responses.
\<close>

definition spec_last_write :: "market option \<Rightarrow> markets list \<Rightarrow> string \<Rightarrow> market option" where
  "spec_last_write init results k =
     foldl (\<lambda>acc ms. case map_of ms k of
                        Some m \<Rightarrow> if m \<noteq> [] then Some m else acc
                      | None \<Rightarrow> acc) init results"

definition markets_seen :: "int \<Rightarrow> odds_item list \<Rightarrow> markets list" where
  "markets_seen fid items =
     List.map_filter (\<lambda>it. case extract_markets (oi_bookmakers it) of
                             Inr ms \<Rightarrow> Some ms
                           | Inl e \<Rightarrow> None)
       (filter (\<lambda>it. item_fid it = fid) items)"

section \<open>Example inputs\<close>

definition ex_btts_bet :: bet where
  "ex_btts_bet =
     \<lparr>bet_name = Some ''Both Teams To Score'',
      bet_values = [\<lparr>ov_value = Some ''Yes'', ov_odd = Some ''1.70'', ov_handicap = None\<rparr>,
                    \<lparr>ov_value = Some ''No'', ov_odd = Some ''2.05'', ov_handicap = None\<rparr>]\<rparr>"

definition ex_book_acme :: book where
  "ex_book_acme = \<lparr>book_name = Some ''Acme'', book_bets = [ex_btts_bet]\<rparr>"

definition ex_book_zeta :: book where
  "ex_book_zeta = \<lparr>book_name = Some ''Zeta'', book_bets = [ex_btts_bet]\<rparr>"

text \<open>An Over/Under bet that publishes the line 2.25 only.\<close>

definition ex_fallback_books :: "book list" where
  "ex_fallback_books =
     [\<lparr>book_name = Some ''bet365'',
       book_bets =
         [\<lparr>bet_name = Some ''Goals Over/Under'',
           bet_values =
             [\<lparr>ov_value = Some ''Over 2.25'', ov_odd = Some ''1.80'', ov_handicap = None\<rparr>,
              \<lparr>ov_value = Some ''Under 2.25'', ov_odd = Some ''2.00'', ov_handicap = None\<rparr>]\<rparr>]\<rparr>]"

text \<open>An Asian Handicap bet that lists the line +1 for the home side before the line -1.\<close>

definition ex_handicap_books :: "book list" where
  "ex_handicap_books =
     [\<lparr>book_name = Some ''bet365'',
       book_bets =
         [\<lparr>bet_name = Some ''Asian Handicap'',
           bet_values =
             [\<lparr>ov_value = Some ''Home +1'', ov_odd = Some ''1.30'', ov_handicap = None\<rparr>,
              \<lparr>ov_value = Some ''Away +1'', ov_odd = Some ''1.95'', ov_handicap = None\<rparr>,
              \<lparr>ov_value = Some ''Home -1'', ov_odd = Some ''3.40'', ov_handicap = None\<rparr>]\<rparr>]\<rparr>]"

text \<open>A bet whose name both the Over/Under rule and the Handicap rule find.\<close>

definition ex_double_books :: "book list" where
  "ex_double_books =
     [\<lparr>book_name = Some ''bet365'',
       book_bets =
         [\<lparr>bet_name = Some ''Handicap Totals'',
           bet_values =
             [\<lparr>ov_value = Some ''Over 2.5'', ov_odd = Some ''1.90'', ov_handicap = None\<rparr>,
              \<lparr>ov_value = Some ''Home -1'', ov_odd = Some ''3.40'', ov_handicap = None\<rparr>]\<rparr>]\<rparr>]"

text \<open>A bet no rule finds, and a both-teams-to-score bet without a No outcome.\<close>

definition ex_unmatched_books :: "book list" where
  "ex_unmatched_books =
     [\<lparr>book_name = Some ''bet365'',
       book_bets =
         [\<lparr>bet_name = Some ''Correct Score'',
           bet_values =
             [\<lparr>ov_value = Some ''1:0'', ov_odd = Some ''7.50'', ov_handicap = None\<rparr>]\<rparr>]\<rparr>]"

definition ex_yes_only_books :: "book list" where
  "ex_yes_only_books =
     [\<lparr>book_name = Some ''Acme'',
       book_bets =
         [\<lparr>bet_name = Some ''BTTS'',
           bet_values =
             [\<lparr>ov_value = Some ''Yes'', ov_odd = Some ''1.70'', ov_handicap = None\<rparr>]\<rparr>]\<rparr>]"

text \<open>
  A snapshot, a world in which every call succeeds, and the same world with a read-only
  archive directory.
\<close>

definition ex_snapshot :: snapshot where
  "ex_snapshot = \<lparr>snap_date = ''2025-01-15'', snap_count = 0, snap_items = []\<rparr>"

definition ex_world :: world where
  "ex_world =
     \<lparr>w_now = 1736900000, w_files = (\<lambda>p. None), w_dirs = {}, w_walk = (\<lambda>d. []),
      w_fault = (\<lambda>c. None), w_trace = [], w_stdout = []\<rparr>"

definition ex_world_gz_fails :: world where
  "ex_world_gz_fails =
     ex_world\<lparr>w_fault := (\<lambda>c. if c = WriteGz ''data/odds/2025/01/2025-01-15.json.gz''
                               then Some PermissionError else None)\<rparr>"

text \<open>
  A directory tree at day 1000 (in seconds: 86400000) with a file of day 990, files of days
  900, 880, 870 and 860, a listed name whose file is already gone, and an old
  \<^verbatim>\<open>latest.json\<close>; in the second world the file of day 880 cannot be removed.
\<close>

definition ex_file :: "real \<Rightarrow> fs_file" where
  "ex_file t = \<lparr>f_mtime = t, f_body = Opaque\<rparr>"

definition ex_prune_world :: world where
  "ex_prune_world =
     \<lparr>w_now = 86400000,
      w_files = [''data/odds/latest.json'' \<mapsto> ex_file 0,
                 ''data/odds/a/d990.json.gz'' \<mapsto> ex_file 85536000,
                 ''data/odds/a/d900.json.gz'' \<mapsto> ex_file 77760000,
                 ''data/odds/a/d880.json.gz'' \<mapsto> ex_file 76032000,
                 ''data/odds/b/d860.json.gz'' \<mapsto> ex_file 74304000,
                 ''data/odds/b/notes.txt'' \<mapsto> ex_file 0],
      w_dirs = {},
      w_walk = (\<lambda>d. if d = ''data/odds''
                      then [(''data/odds'', [''latest.json'']),
                            (''data/odds/a'', [''d990.json.gz'', ''d900.json.gz'', ''d880.json.gz'',
                                                ''d870.json.gz'']),
                            (''data/odds/b'', [''d860.json.gz'', ''notes.txt''])]
                      else []),
      w_fault = (\<lambda>c. None), w_trace = [], w_stdout = []\<rparr>"

definition ex_prune_world_locked :: world where
  "ex_prune_world_locked =
     ex_prune_world\<lparr>w_fault := (\<lambda>c. if c = Remove ''data/odds/a/d880.json.gz''
                                    then Some PermissionError else None)\<rparr>"

text \<open>A fixture, and three odds responses for it.\<close>

definition ex_fixture :: fixture_in where
  "ex_fixture =
     \<lparr>fx_id = Some 1001, fx_date = ''2025-01-15 16:00:00 -0300'', fx_status = ''NS'',
      fx_league_id = Some 71, fx_league = ''Brazil Serie A'', fx_home = Some ''Santos'',
      fx_away = Some ''Bahia''\<rparr>"

definition ex_record :: fixture_rec where
  "ex_record =
     \<lparr>r_fixtureId = 1001, r_date = ''2025-01-15 16:00:00 -0300'', r_status = ''NS'',
      r_leagueId = 71, r_league = ''Brazil Serie A'', r_home = Some ''Santos'',
      r_away = Some ''Bahia'', r_markets = []\<rparr>"

definition ex_odds :: "odds_item list" where
  "ex_odds =
     [\<lparr>oi_fixture_id = Some 1001, oi_bookmakers = [ex_book_acme]\<rparr>,
      \<lparr>oi_fixture_id = Some 1001, oi_bookmakers = ex_yes_only_books\<rparr>,
      \<lparr>oi_fixture_id = Some 1001, oi_bookmakers = ex_unmatched_books\<rparr>]"

section \<open>Bookmaker ranking: the winner is the first candidate of maximal score\<close>

lemma score_of_spec: "score_of bk b = spec_score (bk, b)"
  by (simp add: score_of_def spec_score_def spec_preference_weight_def pref_rank_def
      split: option.split)

lemma pick_loop_foldl: "pick_loop p books st = foldl rank_step st (candidates p books)"
proof (induction books arbitrary: st)
  case Nil
  then show ?case by (simp add: candidates_def map_filter_simps)
next
  case (Cons bk books)
  show ?case
  proof (cases "first_bet p bk")
    case None
    then show ?thesis using Cons by (simp add: candidates_def map_filter_simps)
  next
    case (Some b)
    then show ?thesis using Cons
      by (simp add: candidates_def map_filter_simps rank_step_def score_of_spec Let_def)
  qed
qed

lemma foldl_rank_step_first_max:
  "cs \<noteq> [] \<Longrightarrow>
   \<exists>i<length cs. foldl rank_step None cs = Some (cs ! i, spec_score (cs ! i))
      \<and> (\<forall>j<length cs. spec_score (cs ! j) \<le> spec_score (cs ! i))
      \<and> (\<forall>j<i. spec_score (cs ! j) < spec_score (cs ! i))"
proof (induction cs rule: rev_induct)
  case Nil
  then show ?case by simp
next
  case (snoc c cs)
  show ?case
  proof (cases "cs = []")
    case True
    then show ?thesis by (simp add: rank_step_def)
  next
    case False
    with snoc.IH obtain i where i: "i < length cs"
      and st: "foldl rank_step None cs = Some (cs ! i, spec_score (cs ! i))"
      and mx: "\<forall>j<length cs. spec_score (cs ! j) \<le> spec_score (cs ! i)"
      and fst: "\<forall>j<i. spec_score (cs ! j) < spec_score (cs ! i)"
      by blast
    show ?thesis
    proof (cases "spec_score c > spec_score (cs ! i)")
      case True
      have a: "foldl rank_step None (cs @ [c])
                 = Some ((cs @ [c]) ! length cs, spec_score ((cs @ [c]) ! length cs))"
        using st True by (simp add: rank_step_def)
      have b: "\<forall>j<length (cs @ [c]).
                 spec_score ((cs @ [c]) ! j) \<le> spec_score ((cs @ [c]) ! length cs)"
      proof (intro allI impI)
        fix j assume "j < length (cs @ [c])"
        then consider "j < length cs" | "j = length cs" by fastforce
        then show "spec_score ((cs @ [c]) ! j) \<le> spec_score ((cs @ [c]) ! length cs)"
        proof cases
          case 1
          then show ?thesis
            using mx True by (simp add: nth_append) (meson le_less_trans less_imp_le)
        next
          case 2
          then show ?thesis by simp
        qed
      qed
      have c: "\<forall>j<length cs. spec_score ((cs @ [c]) ! j) < spec_score ((cs @ [c]) ! length cs)"
        using mx True by (simp add: nth_append) (meson le_less_trans)
      show ?thesis
        using a b c by (intro exI[of _ "length cs"]) simp
    next
      case False
      have a: "foldl rank_step None (cs @ [c])
                 = Some ((cs @ [c]) ! i, spec_score ((cs @ [c]) ! i))"
        using st False i by (simp add: rank_step_def nth_append)
      have b: "\<forall>j<length (cs @ [c]). spec_score ((cs @ [c]) ! j) \<le> spec_score ((cs @ [c]) ! i)"
      proof (intro allI impI)
        fix j assume "j < length (cs @ [c])"
        then consider "j < length cs" | "j = length cs" by fastforce
        then show "spec_score ((cs @ [c]) ! j) \<le> spec_score ((cs @ [c]) ! i)"
        proof cases
          case 1
          then show ?thesis using mx i by (simp add: nth_append)
        next
          case 2
          then show ?thesis using False i by (simp add: nth_append)
        qed
      qed
      have c: "\<forall>j<i. spec_score ((cs @ [c]) ! j) < spec_score ((cs @ [c]) ! i)"
        using fst i by (simp add: nth_append)
      show ?thesis
        using a b c i by (intro exI[of _ i]) simp
    qed
  qed
qed

lemma pick_bookmaker_none: "candidates p books = [] \<Longrightarrow> pick_bookmaker books p = None"
  by (simp add: pick_bookmaker_def pick_loop_foldl)

text \<open>
  C3. For every list of bookmakers in which at least one offers a bet the rule finds, the
  selected (bookmaker, bet) is a candidate whose score -- preference weight times 100 plus
  outcome count, the weight being list size plus two minus the index for a listed
  bookmaker and one for an unlisted one -- is maximal among the candidates, and every
  candidate before it in the input scores strictly less: the first of the best wins.
  The selection is a function of the input list, so the same list in the same order
  always gives the same winner.
\<close>

theorem pick_bookmaker_first_max:
  "candidates p books \<noteq> [] \<Longrightarrow>
   \<exists>i<length (candidates p books).
      pick_bookmaker books p = Some (candidates p books ! i)
      \<and> (\<forall>j<length (candidates p books).
            spec_score (candidates p books ! j) \<le> spec_score (candidates p books ! i))
      \<and> (\<forall>j<i. spec_score (candidates p books ! j) < spec_score (candidates p books ! i))"
proof -
  assume ne: "candidates p books \<noteq> []"
  from foldl_rank_step_first_max[OF ne] obtain i where
    "i < length (candidates p books)"
    "foldl rank_step None (candidates p books)
       = Some (candidates p books ! i, spec_score (candidates p books ! i))"
    "\<forall>j<length (candidates p books).
        spec_score (candidates p books ! j) \<le> spec_score (candidates p books ! i)"
    "\<forall>j<i. spec_score (candidates p books ! j) < spec_score (candidates p books ! i)"
    by blast
  then show ?thesis
    by (intro exI[of _ i]) (simp add: pick_bookmaker_def pick_loop_foldl)
qed

text \<open>
  Two unlisted bookmakers with two outcomes each score equally; the first one is selected.
\<close>

theorem pick_bookmaker_first_max_witness:
  "candidates RX_BTTS [ex_book_acme, ex_book_zeta] \<noteq> []
   \<and> (\<exists>i<length (candidates RX_BTTS [ex_book_acme, ex_book_zeta]).
        pick_bookmaker [ex_book_acme, ex_book_zeta] RX_BTTS
          = Some (candidates RX_BTTS [ex_book_acme, ex_book_zeta] ! i)
        \<and> (\<forall>j<length (candidates RX_BTTS [ex_book_acme, ex_book_zeta]).
              spec_score (candidates RX_BTTS [ex_book_acme, ex_book_zeta] ! j)
                \<le> spec_score (candidates RX_BTTS [ex_book_acme, ex_book_zeta] ! i))
        \<and> (\<forall>j<i. spec_score (candidates RX_BTTS [ex_book_acme, ex_book_zeta] ! j)
                    < spec_score (candidates RX_BTTS [ex_book_acme, ex_book_zeta] ! i)))
   \<and> spec_score (ex_book_acme, ex_btts_bet) = spec_score (ex_book_zeta, ex_btts_bet)
   \<and> pick_bookmaker [ex_book_acme, ex_book_zeta] RX_BTTS = Some (ex_book_acme, ex_btts_bet)"
proof -
  have h: "candidates RX_BTTS [ex_book_acme, ex_book_zeta] \<noteq> []"
    by code_simp
  have s: "spec_score (ex_book_acme, ex_btts_bet) = spec_score (ex_book_zeta, ex_btts_bet)"
    by code_simp
  have r: "pick_bookmaker [ex_book_acme, ex_book_zeta] RX_BTTS = Some (ex_book_acme, ex_btts_bet)"
    by code_simp
  from pick_bookmaker_first_max[OF h] h s r show ?thesis
    by blast
qed

section \<open>Market extraction\<close>

subsection \<open>The Over/Under fallback\<close>

lemma nearest_to_not_callable:
  "arr \<noteq> [] \<Longrightarrow> nearest_to target arr (PyFloat x) = Inl TypeError"
  by (cases arr) (simp_all add: nearest_to_def py_call_def)

lemma nearest_to_empty: "nearest_to target [] predicate = Inr None"
  by (simp add: nearest_to_def)

text \<open>
  C1. The claim says that, when the winning bookmaker publishes no Over (or no Under)
  outcome with the literal 2.5, the selector falls back without an error to the outcome
  of the same direction whose line is nearest to 2.5. The script passes the target 2.5 as
  the third argument of \<^verbatim>\<open>_nearest_to\<close>, where the loop calls it as the predicate: whenever
  the fallback is needed and there is an outcome of that direction to choose from, the
  call raises \<^verbatim>\<open>TypeError\<close> and the whole extraction is lost.
\<close>

theorem extract_markets_fallback_raises:
  "pick_bookmaker books RX_OVER_UNDER = Some (bk, b) \<Longrightarrow>
   (find (\<lambda>v. is_over v \<and> py_in ''2.5'' (line_str v)) (bet_values b) = None
      \<and> filter is_over (bet_values b) \<noteq> [])
   \<or> (find (\<lambda>v. is_under v \<and> py_in ''2.5'' (line_str v)) (bet_values b) = None
      \<and> filter is_under (bet_values b) \<noteq> []) \<Longrightarrow>
   extract_markets books = Inl TypeError"
proof -
  assume pk: "pick_bookmaker books RX_OVER_UNDER = Some (bk, b)"
  assume fb: "(find (\<lambda>v. is_over v \<and> py_in ''2.5'' (line_str v)) (bet_values b) = None
      \<and> filter is_over (bet_values b) \<noteq> [])
   \<or> (find (\<lambda>v. is_under v \<and> py_in ''2.5'' (line_str v)) (bet_values b) = None
      \<and> filter is_under (bet_values b) \<noteq> [])"
  have "extract_over_under books out = Inl TypeError" for out
  proof (cases "find (\<lambda>v. is_over v \<and> py_in ''2.5'' (line_str v)) (bet_values b) = None
      \<and> filter is_over (bet_values b) \<noteq> []")
    case True
    then show ?thesis
      using pk by (simp add: extract_over_under_def nearest_to_not_callable)
  next
    case False
    with fb have u: "find (\<lambda>v. is_under v \<and> py_in ''2.5'' (line_str v)) (bet_values b) = None"
      "filter is_under (bet_values b) \<noteq> []" by auto
    show ?thesis
    proof (cases "find (\<lambda>v. is_over v \<and> py_in ''2.5'' (line_str v)) (bet_values b)")
      case None
      with False have "filter is_over (bet_values b) = []" by simp
      then show ?thesis
        using pk None u by (simp add: extract_over_under_def nearest_to_not_callable nearest_to_empty)
    next
      case (Some v)
      then show ?thesis
        using pk u by (simp add: extract_over_under_def nearest_to_not_callable)
    qed
  qed
  then show ?thesis by (simp add: extract_markets_def)
qed

theorem extract_markets_fallback_raises_witness:
  "pick_bookmaker ex_fallback_books RX_OVER_UNDER = Some (hd ex_fallback_books, hd (book_bets (hd ex_fallback_books)))
   \<and> find (\<lambda>v. is_over v \<and> py_in ''2.5'' (line_str v)) (bet_values (hd (book_bets (hd ex_fallback_books)))) = None
   \<and> filter is_over (bet_values (hd (book_bets (hd ex_fallback_books)))) \<noteq> []
   \<and> extract_markets ex_fallback_books = Inl TypeError"
proof -
  have a: "pick_bookmaker ex_fallback_books RX_OVER_UNDER = Some (hd ex_fallback_books, hd (book_bets (hd ex_fallback_books)))"
    by code_simp
  have b: "find (\<lambda>v. is_over v \<and> py_in ''2.5'' (line_str v)) (bet_values (hd (book_bets (hd ex_fallback_books)))) = None"
    by code_simp
  have c: "filter is_over (bet_values (hd (book_bets (hd ex_fallback_books)))) \<noteq> []"
    by code_simp
  from extract_markets_fallback_raises[OF a] a b c show ?thesis by blast
qed

subsection \<open>The handicap legs\<close>

text \<open>
  C2. The claim says that the home leg is only ever taken from an outcome at the line -1.
  The pattern for the home line, \<^verbatim>\<open>-?1(?:\.0)?$\<close>, is searched without an anchor at the
  start (the pattern for the away line has one), so any line text that ends in 1 is
  accepted: here the outcome "Home +1", listed first, supplies the field
  \<^verbatim>\<open>homeMinus1\<close>, and the outcome "Home -1" is ignored.
\<close>

theorem handicap_home_leg_from_plus_one:
  "extract_markets ex_handicap_books
     = Inr [(''handicap'', [(''homeMinus1'', JStr ''1.30''), (''awayPlus1'', JStr ''1.95''),
                            (''bookmaker'', JStr ''bet365'')])]"
  by code_simp

subsection \<open>Where an emitted market comes from\<close>

lemma in_set_update:
  "(k', v') \<in> set (AList.update k v al) \<Longrightarrow> (k', v') = (k, v) \<or> (k', v') \<in> set al"
  by (induction al) (auto split: if_splits)

lemma candidates_member:
  "(bk, b) \<in> set (candidates p books) \<Longrightarrow>
   bk \<in> set books \<and> b \<in> set (book_bets bk) \<and> re_found p (str_or_empty (bet_name b))"
proof -
  assume "(bk, b) \<in> set (candidates p books)"
  then obtain x where x: "x \<in> set books" "map_option (Pair x) (first_bet p x) = Some (bk, b)"
    by (auto simp: candidates_def List.map_filter_def)
  then have "x = bk" "first_bet p bk = Some b" by auto
  then show ?thesis
    using x(1) by (auto simp: first_bet_def find_Some_iff)
qed

lemma pick_bookmaker_candidate:
  "pick_bookmaker books p = Some sel \<Longrightarrow> sel \<in> set (candidates p books)"
proof -
  assume pk: "pick_bookmaker books p = Some sel"
  then have "candidates p books \<noteq> []" using pick_bookmaker_none by fastforce
  from foldl_rank_step_first_max[OF this] obtain i where
    "i < length (candidates p books)"
    "foldl rank_step None (candidates p books) = Some (candidates p books ! i, spec_score (candidates p books ! i))"
    by blast
  with pk have "sel = candidates p books ! i" "i < length (candidates p books)"
    by (simp_all add: pick_bookmaker_def pick_loop_foldl)
  then show ?thesis by simp
qed

lemma pick_bookmaker_source:
  "pick_bookmaker books p = Some (bk, b) \<Longrightarrow>
   bk \<in> set books \<and> b \<in> set (book_bets bk) \<and> re_found p (str_or_empty (bet_name b))"
  using pick_bookmaker_candidate candidates_member by blast

lemma no_match_no_candidates:
  assumes nm: "\<forall>bk\<in>set books. \<forall>b\<in>set (book_bets bk). \<not> re_found p (str_or_empty (bet_name b))"
  shows "candidates p books = []"
proof (rule ccontr)
  assume "candidates p books \<noteq> []"
  then have "hd (candidates p books) \<in> set (candidates p books)" by simp
  then have "(fst (hd (candidates p books)), snd (hd (candidates p books))) \<in> set (candidates p books)"
    by simp
  from candidates_member[OF this] nm show False by blast
qed

lemma rules_simps:
  "map_of market_rules ''matchWinner'' = Some RX_MATCH_WINNER"
  "map_of market_rules ''overUnder'' = Some RX_OVER_UNDER"
  "map_of market_rules ''btts'' = Some RX_BTTS"
  "map_of market_rules ''handicap'' = Some RX_HANDICAP"
  "map_of market_rules ''firstHalfWinner'' = Some RX_FIRST_HALF_WIN"
  by (simp_all add: market_rules_def)

lemma fields_simps:
  "market_fields ''matchWinner'' = [''home'', ''draw'', ''away'', ''bookmaker'']"
  "market_fields ''overUnder'' = [''line'', ''over'', ''under'', ''bookmaker'']"
  "market_fields ''btts'' = [''yes'', ''no'', ''bookmaker'']"
  "market_fields ''handicap'' = [''homeMinus1'', ''awayPlus1'', ''bookmaker'']"
  "market_fields ''firstHalfWinner'' = [''home'', ''draw'', ''away'', ''bookmaker'']"
  by (simp_all add: market_fields_def)

lemma cond_update_entry:
  "(k, m) \<in> set (if c then AList.update k0 m0 out else out) \<Longrightarrow> entry_ok books k0 m0 \<Longrightarrow>
   (k, m) \<in> set out \<or> entry_ok books k m"
  by (auto split: if_splits dest: in_set_update)

lemma match_winner_entry:
  assumes "(k, m) \<in> set (extract_match_winner books out)"
  shows "(k, m) \<in> set out \<or> entry_ok books k m"
proof (cases "pick_bookmaker books RX_MATCH_WINNER")
  case None
  then show ?thesis using assms by (simp add: extract_match_winner_def)
next
  case (Some sel)
  obtain bk b where sel: "sel = (bk, b)" by (cases sel)
  show ?thesis
    using assms unfolding extract_match_winner_def Let_def Some sel option.case prod.case
    by (rule cond_update_entry) (simp add: entry_ok_def rules_simps fields_simps Some sel)
qed

lemma btts_entry:
  assumes "(k, m) \<in> set (extract_btts books out)"
  shows "(k, m) \<in> set out \<or> entry_ok books k m"
proof (cases "pick_bookmaker books RX_BTTS")
  case None
  then show ?thesis using assms by (simp add: extract_btts_def)
next
  case (Some sel)
  obtain bk b where sel: "sel = (bk, b)" by (cases sel)
  show ?thesis
    using assms unfolding extract_btts_def Let_def Some sel option.case prod.case
    by (rule cond_update_entry) (simp add: entry_ok_def rules_simps fields_simps Some sel)
qed

lemma handicap_entry:
  assumes "(k, m) \<in> set (extract_handicap books out)"
  shows "(k, m) \<in> set out \<or> entry_ok books k m"
proof (cases "pick_bookmaker books RX_HANDICAP")
  case None
  then show ?thesis using assms by (simp add: extract_handicap_def)
next
  case (Some sel)
  obtain bk b where sel: "sel = (bk, b)" by (cases sel)
  show ?thesis
    using assms unfolding extract_handicap_def Let_def Some sel option.case prod.case
    by (rule cond_update_entry) (simp add: entry_ok_def rules_simps fields_simps Some sel)
qed

lemma first_half_winner_entry:
  assumes "(k, m) \<in> set (extract_first_half_winner books out)"
  shows "(k, m) \<in> set out \<or> entry_ok books k m"
proof (cases "pick_bookmaker books RX_FIRST_HALF_WIN")
  case None
  then show ?thesis using assms by (simp add: extract_first_half_winner_def)
next
  case (Some sel)
  obtain bk b where sel: "sel = (bk, b)" by (cases sel)
  show ?thesis
    using assms unfolding extract_first_half_winner_def Let_def Some sel option.case prod.case
    by (rule cond_update_entry) (simp add: entry_ok_def rules_simps fields_simps Some sel)
qed

lemma over_under_result:
  assumes "extract_over_under books out = Inr out'"
  shows "out' = out \<or> (\<exists>bk b l x y. pick_bookmaker books RX_OVER_UNDER = Some (bk, b)
     \<and> out' = AList.update ''overUnder''
         [(''line'', JStr l), (''over'', x), (''under'', y), (''bookmaker'', j_of (book_name bk))] out)"
proof (cases "pick_bookmaker books RX_OVER_UNDER")
  case None
  then show ?thesis using assms by (simp add: extract_over_under_def)
next
  case (Some sel)
  obtain bk b where sel: "sel = (bk, b)" by (cases sel)
  define ov where "ov = (case find (\<lambda>v. is_over v \<and> py_in ''2.5'' (line_str v)) (bet_values b) of
       Some v \<Rightarrow> Inr (Some v)
     | None \<Rightarrow> nearest_to (5 / 2) (filter is_over (bet_values b)) (PyFloat (5 / 2)))"
  define un where "un = (case find (\<lambda>v. is_under v \<and> py_in ''2.5'' (line_str v)) (bet_values b) of
       Some v \<Rightarrow> Inr (Some v)
     | None \<Rightarrow> nearest_to (5 / 2) (filter is_under (bet_values b)) (PyFloat (5 / 2)))"
  from assms have eq: "(case ov of Inl e \<Rightarrow> Inl e
     | Inr over_pick \<Rightarrow>
        (case un of Inl e \<Rightarrow> Inl e
         | Inr under_pick \<Rightarrow>
            if over_pick \<noteq> None \<or> under_pick \<noteq> None
            then Inr (AList.update ''overUnder''
                   [(''line'', JStr (if line_from (case over_pick of Some v \<Rightarrow> Some v | None \<Rightarrow> under_pick) \<noteq> []
                                     then line_from (case over_pick of Some v \<Rightarrow> Some v | None \<Rightarrow> under_pick)
                                     else ''2.5'')),
                    (''over'', j_of (case over_pick of None \<Rightarrow> None | Some v \<Rightarrow> ov_odd v)),
                    (''under'', j_of (case under_pick of None \<Rightarrow> None | Some v \<Rightarrow> ov_odd v)),
                    (''bookmaker'', j_of (book_name bk))] out)
            else Inr out)) = Inr out'"
    unfolding extract_over_under_def Let_def Some sel option.case prod.case ov_def un_def .
  show ?thesis
  proof (cases ov)
    case (Inl e)
    then show ?thesis using eq by simp
  next
    case ovr: (Inr over_pick)
    show ?thesis
    proof (cases un)
      case (Inl e)
      then show ?thesis using eq ovr by simp
    next
      case unr: (Inr under_pick)
      show ?thesis
      proof (cases "over_pick \<noteq> None \<or> under_pick \<noteq> None")
        case True
        then show ?thesis using eq ovr unr Some sel by (simp only: sum.case if_True sum.inject) blast
      next
        case False
        then show ?thesis using eq ovr unr by simp
      qed
    qed
  qed
qed

lemma over_under_entry:
  assumes "extract_over_under books out = Inr out'" and km: "(k, m) \<in> set out'"
  shows "(k, m) \<in> set out \<or> entry_ok books k m"
proof -
  from over_under_result[OF assms(1)] consider "out' = out"
    | bk b l x y where "pick_bookmaker books RX_OVER_UNDER = Some (bk, b)"
        "out' = AList.update ''overUnder''
           [(''line'', JStr l), (''over'', x), (''under'', y), (''bookmaker'', j_of (book_name bk))] out"
    by blast
  then show ?thesis
  proof cases
    case 1
    then show ?thesis using km by simp
  next
    case 2
    have "entry_ok books ''overUnder''
            [(''line'', JStr l), (''over'', x), (''under'', y), (''bookmaker'', j_of (book_name bk))]"
      by (simp add: entry_ok_def rules_simps fields_simps 2(1))
    then show ?thesis using km 2(2) in_set_update by fastforce
  qed
qed

lemma extract_markets_entry:
  "extract_markets books = Inr out \<Longrightarrow> (k, m) \<in> set out \<Longrightarrow> entry_ok books k m"
proof -
  assume ex: "extract_markets books = Inr out" and km: "(k, m) \<in> set out"
  from ex obtain o1 where o1: "extract_over_under books (extract_match_winner books []) = Inr o1"
    and out: "out = extract_first_half_winner books (extract_handicap books (extract_btts books o1))"
    by (auto simp: extract_markets_def split: sum.splits)
  from km out have "(k, m) \<in> set (extract_handicap books (extract_btts books o1)) \<or> entry_ok books k m"
    using first_half_winner_entry by blast
  then have "(k, m) \<in> set (extract_btts books o1) \<or> entry_ok books k m"
    using handicap_entry by blast
  then have "(k, m) \<in> set o1 \<or> entry_ok books k m"
    using btts_entry by blast
  then have "(k, m) \<in> set (extract_match_winner books []) \<or> entry_ok books k m"
    using over_under_entry[OF o1] by blast
  then show ?thesis
    using match_winner_entry[of k m books "[]"] by auto
qed

lemma entry_ok_key:
  "entry_ok books k m \<Longrightarrow>
   k \<in> {''matchWinner'', ''overUnder'', ''btts'', ''handicap'', ''firstHalfWinner''}"
  by (auto simp: entry_ok_def market_rules_def split: option.splits if_splits)

lemma extract_markets_unmatched:
  assumes "\<forall>bk\<in>set books. \<forall>b\<in>set (book_bets bk). \<forall>rule\<in>set market_rules.
             \<not> re_found (snd rule) (str_or_empty (bet_name b))"
  shows "extract_markets books = Inr []"
proof -
  have "pick_bookmaker books p = None" if "p \<in> snd ` set market_rules" for p
    using assms that by (intro pick_bookmaker_none no_match_no_candidates) auto
  then have "pick_bookmaker books RX_MATCH_WINNER = None" "pick_bookmaker books RX_OVER_UNDER = None"
    "pick_bookmaker books RX_BTTS = None" "pick_bookmaker books RX_HANDICAP = None"
    "pick_bookmaker books RX_FIRST_HALF_WIN = None"
    by (simp_all add: market_rules_def)
  then show ?thesis
    by (simp add: extract_markets_def extract_match_winner_def extract_over_under_def
        extract_btts_def extract_handicap_def extract_first_half_winner_def)
qed

lemma cond_update_distinct:
  "distinct (map fst out) \<Longrightarrow> distinct (map fst (if c then AList.update k0 m0 out else out))"
  by (simp add: distinct_update)

lemma match_winner_distinct:
  "distinct (map fst out) \<Longrightarrow> distinct (map fst (extract_match_winner books out))"
  unfolding extract_match_winner_def Let_def
  by (cases "pick_bookmaker books RX_MATCH_WINNER") (simp_all add: distinct_update split: prod.split)

lemma btts_distinct:
  "distinct (map fst out) \<Longrightarrow> distinct (map fst (extract_btts books out))"
  unfolding extract_btts_def Let_def
  by (cases "pick_bookmaker books RX_BTTS") (simp_all add: distinct_update split: prod.split)

lemma handicap_distinct:
  "distinct (map fst out) \<Longrightarrow> distinct (map fst (extract_handicap books out))"
  unfolding extract_handicap_def Let_def
  by (cases "pick_bookmaker books RX_HANDICAP") (simp_all add: distinct_update split: prod.split)

lemma first_half_winner_distinct:
  "distinct (map fst out) \<Longrightarrow> distinct (map fst (extract_first_half_winner books out))"
  unfolding extract_first_half_winner_def Let_def
  by (cases "pick_bookmaker books RX_FIRST_HALF_WIN") (simp_all add: distinct_update split: prod.split)

lemma over_under_distinct:
  "extract_over_under books out = Inr out' \<Longrightarrow> distinct (map fst out) \<Longrightarrow> distinct (map fst out')"
  using over_under_result[of books out out'] by (auto simp: distinct_update)

lemma extract_markets_distinct:
  assumes "extract_markets books = Inr out"
  shows "distinct (map fst out)"
proof -
  from assms obtain o1 where o1: "extract_over_under books (extract_match_winner books []) = Inr o1"
    and out: "out = extract_first_half_winner books (extract_handicap books (extract_btts books o1))"
    by (auto simp: extract_markets_def split: sum.splits)
  have "distinct (map fst (extract_match_winner books []))"
    by (rule match_winner_distinct) simp
  from over_under_distinct[OF o1 this] show ?thesis
    unfolding out by (intro first_half_winner_distinct handicap_distinct btts_distinct)
qed

text \<open>
  C4, as stated, fails: the five rules are not alternatives tried in order on a name. Each
  rule runs its own selection over all bets, so a name that two rules find is the source
  of two market types. The name "Handicap Totals" is found by the Over/Under rule and by
  the Handicap rule, and one bet of that name yields both markets.
\<close>

theorem one_name_two_market_types:
  "re_found RX_OVER_UNDER ''Handicap Totals'' \<and> re_found RX_HANDICAP ''Handicap Totals''
   \<and> extract_markets ex_double_books
       = Inr [(''overUnder'', [(''line'', JStr ''2.5''), (''over'', JStr ''1.90''), (''under'', JNull),
                               (''bookmaker'', JStr ''bet365'')]),
              (''handicap'', [(''homeMinus1'', JStr ''3.40''), (''awayPlus1'', JNull),
                              (''bookmaker'', JStr ''bet365'')])]"
  by code_simp

text \<open>
  C4, amended. Every rule is tested on its own against every bet name. A market emitted
  under a key is sourced from a bet of the input whose name the rule of that key finds
  (the bet selected for that rule); and when no bet name is found by any rule, the result
  is the empty mapping.
\<close>

theorem market_source_matches_rule:
  "(extract_markets books = Inr out \<longrightarrow> (k, m) \<in> set out \<longrightarrow>
      (\<exists>rx bk b. map_of market_rules k = Some rx \<and> pick_bookmaker books rx = Some (bk, b)
          \<and> bk \<in> set books \<and> b \<in> set (book_bets bk)
          \<and> re_found rx (str_or_empty (bet_name b))))
   \<and> ((\<forall>bk\<in>set books. \<forall>b\<in>set (book_bets bk). \<forall>rule\<in>set market_rules.
          \<not> re_found (snd rule) (str_or_empty (bet_name b)))
        \<longrightarrow> extract_markets books = Inr [])"
proof (intro conjI impI)
  assume ex: "extract_markets books = Inr out" and km: "(k, m) \<in> set out"
  from extract_markets_entry[OF ex km] obtain rx sel where
    r: "map_of market_rules k = Some rx" and p: "pick_bookmaker books rx = Some sel"
    by (auto simp: entry_ok_def split: option.splits)
  obtain bk b where sel: "sel = (bk, b)" by (cases sel)
  from pick_bookmaker_source[OF p[unfolded sel]] r p sel
  show "\<exists>rx bk b. map_of market_rules k = Some rx \<and> pick_bookmaker books rx = Some (bk, b)
          \<and> bk \<in> set books \<and> b \<in> set (book_bets bk)
          \<and> re_found rx (str_or_empty (bet_name b))"
    by blast
next
  assume "\<forall>bk\<in>set books. \<forall>b\<in>set (book_bets bk). \<forall>rule\<in>set market_rules.
            \<not> re_found (snd rule) (str_or_empty (bet_name b))"
  then show "extract_markets books = Inr []" by (rule extract_markets_unmatched)
qed

theorem market_source_matches_rule_witness:
  "extract_markets ex_double_books
     = Inr [(''overUnder'', [(''line'', JStr ''2.5''), (''over'', JStr ''1.90''), (''under'', JNull),
                             (''bookmaker'', JStr ''bet365'')]),
            (''handicap'', [(''homeMinus1'', JStr ''3.40''), (''awayPlus1'', JNull),
                            (''bookmaker'', JStr ''bet365'')])]
   \<and> (\<exists>rx bk b. map_of market_rules ''handicap'' = Some rx
         \<and> pick_bookmaker ex_double_books rx = Some (bk, b)
         \<and> bk \<in> set ex_double_books \<and> b \<in> set (book_bets bk)
         \<and> re_found rx (str_or_empty (bet_name b)))
   \<and> list_all (\<lambda>bk. list_all (\<lambda>b. list_all (\<lambda>rule. \<not> re_found (snd rule) (str_or_empty (bet_name b)))
                                    market_rules) (book_bets bk)) ex_unmatched_books
   \<and> extract_markets ex_unmatched_books = Inr []"
proof -
  have a: "extract_markets ex_double_books
     = Inr [(''overUnder'', [(''line'', JStr ''2.5''), (''over'', JStr ''1.90''), (''under'', JNull),
                             (''bookmaker'', JStr ''bet365'')]),
            (''handicap'', [(''homeMinus1'', JStr ''3.40''), (''awayPlus1'', JNull),
                            (''bookmaker'', JStr ''bet365'')])]"
    by code_simp
  have b: "list_all (\<lambda>bk. list_all (\<lambda>b. list_all (\<lambda>rule. \<not> re_found (snd rule) (str_or_empty (bet_name b)))
                                    market_rules) (book_bets bk)) ex_unmatched_books"
    by code_simp
  then have b': "\<forall>bk\<in>set ex_unmatched_books. \<forall>b\<in>set (book_bets bk). \<forall>rule\<in>set market_rules.
          \<not> re_found (snd rule) (str_or_empty (bet_name b))"
    by (simp add: list_all_iff)
  from market_source_matches_rule[of ex_double_books _ "''handicap''"
        "[(''homeMinus1'', JStr ''3.40''), (''awayPlus1'', JNull), (''bookmaker'', JStr ''bet365'')]"] a
  have c: "\<exists>rx bk b. map_of market_rules ''handicap'' = Some rx
         \<and> pick_bookmaker ex_double_books rx = Some (bk, b)
         \<and> bk \<in> set ex_double_books \<and> b \<in> set (book_bets bk)
         \<and> re_found rx (str_or_empty (bet_name b))"
    by simp
  from market_source_matches_rule[of ex_unmatched_books] b'
  have d: "extract_markets ex_unmatched_books = Inr []" by blast
  from a b c d show ?thesis by blast
qed

text \<open>
  C10. Every key of the returned mapping is one of the five market keys; the record under
  a key has exactly the fields of that market, so a leg that was not found is present
  (with the null value) rather than left out; and its \<^verbatim>\<open>bookmaker\<close> field is the name of
  the bookmaker selected for that market's rule.
\<close>

theorem extract_markets_shape:
  "extract_markets books = Inr out \<Longrightarrow> (k, m) \<in> set out \<Longrightarrow>
   k \<in> {''matchWinner'', ''overUnder'', ''btts'', ''handicap'', ''firstHalfWinner''}
   \<and> map fst m = market_fields k
   \<and> (\<exists>rx bk b. map_of market_rules k = Some rx \<and> pick_bookmaker books rx = Some (bk, b)
         \<and> map_of m ''bookmaker'' = Some (j_of (book_name bk)))"
proof -
  assume ex: "extract_markets books = Inr out" and km: "(k, m) \<in> set out"
  have ok: "entry_ok books k m" by (rule extract_markets_entry[OF ex km])
  then obtain rx sel where r: "map_of market_rules k = Some rx"
    and p: "pick_bookmaker books rx = Some sel"
    and f: "map fst m = market_fields k"
    and n: "map_of m ''bookmaker'' = Some (j_of (book_name (fst sel)))"
    by (auto simp: entry_ok_def split: option.splits)
  obtain bk b where sel: "sel = (bk, b)" by (cases sel)
  from entry_ok_key[OF ok] f r p n sel show ?thesis by auto
qed

theorem extract_markets_shape_witness:
  "extract_markets ex_yes_only_books
     = Inr [(''btts'', [(''yes'', JStr ''1.70''), (''no'', JNull), (''bookmaker'', JStr ''Acme'')])]
   \<and> ''btts'' \<in> {''matchWinner'', ''overUnder'', ''btts'', ''handicap'', ''firstHalfWinner''}
   \<and> map fst [(''yes'', JStr ''1.70''), (''no'', JNull), (''bookmaker'', JStr ''Acme'')]
       = market_fields ''btts''
   \<and> (\<exists>rx bk b. map_of market_rules ''btts'' = Some rx
         \<and> pick_bookmaker ex_yes_only_books rx = Some (bk, b)
         \<and> map_of [(''yes'', JStr ''1.70''), (''no'', JNull), (''bookmaker'', JStr ''Acme'')] ''bookmaker''
             = Some (j_of (book_name bk)))"
proof -
  have a: "extract_markets ex_yes_only_books
     = Inr [(''btts'', [(''yes'', JStr ''1.70''), (''no'', JNull), (''bookmaker'', JStr ''Acme'')])]"
    by code_simp
  have b: "(''btts'', [(''yes'', JStr ''1.70''), (''no'', JNull), (''bookmaker'', JStr ''Acme'')])
       \<in> set [(''btts'', [(''yes'', JStr ''1.70''), (''no'', JNull), (''bookmaker'', JStr ''Acme'')])]"
    by simp
  from extract_markets_shape[OF a b] a show ?thesis by blast
qed

section \<open>Persistence: the two writes are an ordered sequence\<close>

lemma os_makedirs_simps:
  "w_trace (fst (os_makedirs p w)) = w_trace w @ [MakeDirs p]"
  "w_fault (fst (os_makedirs p w)) = w_fault w"
  "w_files (fst (os_makedirs p w)) = w_files w"
  "w_now (fst (os_makedirs p w)) = w_now w"
  "snd (os_makedirs p w) = (case w_fault w (MakeDirs p) of Some e \<Rightarrow> Inl e | None \<Rightarrow> Inr ())"
  by (simp_all add: os_makedirs_def attempt_def Let_def split: option.split)

lemma write_file_simps:
  "w_trace (fst (write_file c p body w)) = w_trace w @ [c]"
  "w_fault (fst (write_file c p body w)) = w_fault w"
  "w_now (fst (write_file c p body w)) = w_now w"
  "snd (write_file c p body w) = (case w_fault w c of Some e \<Rightarrow> Inl e | None \<Rightarrow> Inr ())"
  "w_files (fst (write_file c p body w))
     = (case w_fault w c of
          Some e \<Rightarrow> w_files w
        | None \<Rightarrow> (w_files w)(p \<mapsto> \<lparr>f_mtime = w_now w, f_body = body\<rparr>))"
  by (simp_all add: write_file_def attempt_def Let_def split: option.split)

lemma save_snapshot_trace:
  "w_trace (fst (save_snapshot out out_dir w)) = w_trace w @ attempted w (save_calls out out_dir)"
  by (simp add: save_snapshot_def save_calls_def gz_path_of_def latest_path_of_def Let_def
      os_makedirs_simps write_file_simps split: option.split sum.split)

lemma save_snapshot_result:
  "snd (save_snapshot out out_dir w)
     = (case first_fault w (save_calls out out_dir) of
          Some e \<Rightarrow> Inl e
        | None \<Rightarrow> Inr (gz_path_of out out_dir))"
  by (simp add: save_snapshot_def save_calls_def gz_path_of_def latest_path_of_def Let_def
      os_makedirs_simps write_file_simps split: option.split sum.split)

lemma startswith_slash: "startswith b ''/'' \<longleftrightarrow> b \<noteq> [] \<and> hd b = CHR ''/''"
  by (cases b) auto

lemma endswith_slash: "endswith p ''/'' \<longleftrightarrow> p \<noteq> [] \<and> last p = CHR ''/''"
  by (cases p rule: rev_cases) (auto simp: endswith_def)

lemma join2_plain:
  "path \<noteq> [] \<Longrightarrow> last path \<noteq> CHR ''/'' \<Longrightarrow> b \<noteq> [] \<Longrightarrow> hd b \<noteq> CHR ''/'' \<Longrightarrow>
   join2 path b = path @ ''/'' @ b"
  by (simp add: join2_def startswith_slash endswith_slash)

lemma is_digit_not_slash: "is_digit c \<Longrightarrow> c \<noteq> CHR ''/''"
  by (auto simp: is_digit_def)

lemma gz_path_spec:
  assumes "out_dir \<noteq> []" "last out_dir \<noteq> CHR ''/''" "is_ymd (snap_date out)"
  shows "gz_path_of out out_dir = spec_archive_path out_dir (snap_date out)"
proof -
  let ?d = "snap_date out"
  from assms(3) have len: "length ?d = 10" and y: "list_all is_digit (take 4 ?d)"
    and m: "list_all is_digit (take 2 (drop 5 ?d))"
    by (simp_all add: is_ymd_def)
  have yne: "take 4 ?d \<noteq> []" and mne: "take 2 (drop 5 ?d) \<noteq> []" using len by auto
  have yh: "hd (take 4 ?d) \<noteq> CHR ''/''"
    using y yne is_digit_not_slash by (cases "take 4 ?d") auto
  have yl: "last (take 4 ?d) \<noteq> CHR ''/''"
    using y yne is_digit_not_slash by (cases "take 4 ?d" rule: rev_cases) auto
  have mh: "hd (take 2 (drop 5 ?d)) \<noteq> CHR ''/''"
    using m mne is_digit_not_slash by (cases "take 2 (drop 5 ?d)") auto
  have ml: "last (take 2 (drop 5 ?d)) \<noteq> CHR ''/''"
    using m mne is_digit_not_slash by (cases "take 2 (drop 5 ?d)" rule: rev_cases) auto
  have dne: "?d \<noteq> []" using len by auto
  have "hd ?d = hd (take 4 ?d)" using dne by (cases ?d) auto
  then have dh: "hd (?d @ ''.json.gz'') \<noteq> CHR ''/''" using yh dne by simp
  have j1: "join2 out_dir (take 4 ?d) = out_dir @ ''/'' @ take 4 ?d"
    using assms(1,2) yne yh by (rule join2_plain)
  have j2: "join2 (out_dir @ ''/'' @ take 4 ?d) (take 2 (drop 5 ?d))
              = (out_dir @ ''/'' @ take 4 ?d) @ ''/'' @ take 2 (drop 5 ?d)"
    using yne yl mne mh by (intro join2_plain) auto
  have j3: "join2 ((out_dir @ ''/'' @ take 4 ?d) @ ''/'' @ take 2 (drop 5 ?d)) (?d @ ''.json.gz'')
              = ((out_dir @ ''/'' @ take 4 ?d) @ ''/'' @ take 2 (drop 5 ?d)) @ ''/'' @ (?d @ ''.json.gz'')"
    using mne ml dh by (intro join2_plain) auto
  have "gz_path_of out out_dir
          = join2 (join2 (join2 out_dir (take 4 ?d)) (take 2 (drop 5 ?d))) (?d @ ''.json.gz'')"
    by (simp add: gz_path_of_def os_path_join_def)
  also have "\<dots> = ((out_dir @ ''/'' @ take 4 ?d) @ ''/'' @ take 2 (drop 5 ?d)) @ ''/'' @ (?d @ ''.json.gz'')"
    by (simp only: j1 j2 j3)
  finally show ?thesis
    by (simp add: spec_archive_path_def)
qed


lemma attempted_stops:
  "w_fault w c3 \<noteq> None \<Longrightarrow> c4 \<notin> {c1, c2, c3} \<Longrightarrow> c4 \<notin> set (attempted w [c1, c2, c3, c4])"
  by auto

lemma gz_latest_differ: "gz_path_of out out_dir \<noteq> latest_path_of out_dir"
proof -
  have a: "last (join2 p (b @ ''z'')) = CHR ''z''" for p b
    by (simp add: join2_def)
  have b: "last (join2 p ''latest.json'') = CHR ''n''" for p
    by (simp add: join2_def)
  have "last (gz_path_of out out_dir) = CHR ''z''"
    using a[of _ "snap_date out @ ''.json.g''"] by (simp add: gz_path_of_def os_path_join_def)
  moreover have "last (latest_path_of out_dir) = CHR ''n''"
    using b by (simp add: latest_path_of_def os_path_join_def)
  ultimately show ?thesis by auto
qed

lemma save_snapshot_files:
  assumes "first_fault w (save_calls out out_dir) = None"
  shows "w_files (fst (save_snapshot out out_dir w)) (gz_path_of out out_dir)
           = Some \<lparr>f_mtime = w_now w, f_body = GzJson out\<rparr>"
    and "w_files (fst (save_snapshot out out_dir w)) (latest_path_of out_dir)
           = Some \<lparr>f_mtime = w_now w, f_body = IndentedJson out\<rparr>"
  using assms gz_latest_differ[of out out_dir]
  by (simp_all add: save_snapshot_def save_calls_def gz_path_of_def latest_path_of_def Let_def
      os_makedirs_simps write_file_simps split: option.splits sum.split)

text \<open>
  C5. \<^verbatim>\<open>save_snapshot\<close> makes its system calls in a fixed order -- the two directory
  creations, the compressed archive, the uncompressed latest copy -- and stops at the first
  one that fails: the calls made are exactly those up to and including the first failure, so
  the archive is written strictly before the latest copy, and when the archive write fails
  the latest write is never attempted. The first failure is what the caller gets, as an
  exception; without a failure the caller gets the archive path, and both files hold the
  snapshot. For a non-empty output directory without a trailing slash and a date of the
  form YYYY-MM-DD the archive path is \<^verbatim>\<open>{outDir}/{YYYY}/{MM}/{date}.json.gz\<close>.
\<close>

theorem save_snapshot_ordered:
  "w_trace (fst (save_snapshot out out_dir w)) = w_trace w @ attempted w (save_calls out out_dir)
   \<and> snd (save_snapshot out out_dir w)
       = (case first_fault w (save_calls out out_dir) of
            Some e \<Rightarrow> Inl e
          | None \<Rightarrow> Inr (gz_path_of out out_dir))
   \<and> (w_fault w (WriteGz (gz_path_of out out_dir)) \<noteq> None \<longrightarrow>
        WriteText (latest_path_of out_dir) \<notin> set (attempted w (save_calls out out_dir)))
   \<and> (first_fault w (save_calls out out_dir) = None \<longrightarrow>
        w_files (fst (save_snapshot out out_dir w)) (gz_path_of out out_dir)
          = Some \<lparr>f_mtime = w_now w, f_body = GzJson out\<rparr>
        \<and> w_files (fst (save_snapshot out out_dir w)) (latest_path_of out_dir)
          = Some \<lparr>f_mtime = w_now w, f_body = IndentedJson out\<rparr>)
   \<and> (out_dir \<noteq> [] \<and> last out_dir \<noteq> CHR ''/'' \<and> is_ymd (snap_date out) \<longrightarrow>
        gz_path_of out out_dir = spec_archive_path out_dir (snap_date out))"
proof (intro conjI impI)
  show "w_trace (fst (save_snapshot out out_dir w)) = w_trace w @ attempted w (save_calls out out_dir)"
    by (rule save_snapshot_trace)
  show "snd (save_snapshot out out_dir w)
       = (case first_fault w (save_calls out out_dir) of
            Some e \<Rightarrow> Inl e
          | None \<Rightarrow> Inr (gz_path_of out out_dir))"
    by (rule save_snapshot_result)
next
  assume "w_fault w (WriteGz (gz_path_of out out_dir)) \<noteq> None"
  then show "WriteText (latest_path_of out_dir) \<notin> set (attempted w (save_calls out out_dir))"
    unfolding save_calls_def by (rule attempted_stops) simp
next
  assume ok: "first_fault w (save_calls out out_dir) = None"
  show "w_files (fst (save_snapshot out out_dir w)) (gz_path_of out out_dir)
          = Some \<lparr>f_mtime = w_now w, f_body = GzJson out\<rparr>"
    by (rule save_snapshot_files(1)[OF ok])
  show "w_files (fst (save_snapshot out out_dir w)) (latest_path_of out_dir)
          = Some \<lparr>f_mtime = w_now w, f_body = IndentedJson out\<rparr>"
    by (rule save_snapshot_files(2)[OF ok])
next
  assume "out_dir \<noteq> [] \<and> last out_dir \<noteq> CHR ''/'' \<and> is_ymd (snap_date out)"
  then show "gz_path_of out out_dir = spec_archive_path out_dir (snap_date out)"
    by (intro gz_path_spec) simp_all
qed

theorem save_snapshot_ordered_witness:
  "w_fault ex_world_gz_fails (WriteGz (gz_path_of ex_snapshot ''data/odds'')) \<noteq> None
   \<and> w_trace (fst (save_snapshot ex_snapshot ''data/odds'' ex_world_gz_fails))
       = [MakeDirs ''data/odds/2025/01'', MakeDirs ''data/odds'',
          WriteGz ''data/odds/2025/01/2025-01-15.json.gz'']
   \<and> snd (save_snapshot ex_snapshot ''data/odds'' ex_world_gz_fails) = Inl PermissionError
   \<and> WriteText (latest_path_of ''data/odds'')
       \<notin> set (attempted ex_world_gz_fails (save_calls ex_snapshot ''data/odds''))
   \<and> first_fault ex_world (save_calls ex_snapshot ''data/odds'') = None
   \<and> snd (save_snapshot ex_snapshot ''data/odds'' ex_world) = Inr ''data/odds/2025/01/2025-01-15.json.gz''
   \<and> w_trace (fst (save_snapshot ex_snapshot ''data/odds'' ex_world))
       = [MakeDirs ''data/odds/2025/01'', MakeDirs ''data/odds'',
          WriteGz ''data/odds/2025/01/2025-01-15.json.gz'', WriteText ''data/odds/latest.json'']
   \<and> w_files (fst (save_snapshot ex_snapshot ''data/odds'' ex_world)) (latest_path_of ''data/odds'')
       = Some \<lparr>f_mtime = w_now ex_world, f_body = IndentedJson ex_snapshot\<rparr>
   \<and> ''data/odds'' \<noteq> [] \<and> last ''data/odds'' \<noteq> CHR ''/'' \<and> is_ymd (snap_date ex_snapshot)
   \<and> gz_path_of ex_snapshot ''data/odds'' = spec_archive_path ''data/odds'' (snap_date ex_snapshot)"
proof -
  have f: "w_fault ex_world_gz_fails (WriteGz (gz_path_of ex_snapshot ''data/odds'')) \<noteq> None"
    by code_simp
  have t1: "w_trace ex_world_gz_fails @ attempted ex_world_gz_fails (save_calls ex_snapshot ''data/odds'')
       = [MakeDirs ''data/odds/2025/01'', MakeDirs ''data/odds'',
          WriteGz ''data/odds/2025/01/2025-01-15.json.gz'']"
    by code_simp
  have r1: "(case first_fault ex_world_gz_fails (save_calls ex_snapshot ''data/odds'') of
            Some e \<Rightarrow> Inl e
          | None \<Rightarrow> Inr (gz_path_of ex_snapshot ''data/odds'')) = Inl PermissionError"
    by code_simp
  have ok: "first_fault ex_world (save_calls ex_snapshot ''data/odds'') = None"
    by code_simp
  have t2: "w_trace ex_world @ attempted ex_world (save_calls ex_snapshot ''data/odds'')
       = [MakeDirs ''data/odds/2025/01'', MakeDirs ''data/odds'',
          WriteGz ''data/odds/2025/01/2025-01-15.json.gz'', WriteText ''data/odds/latest.json'']"
    by code_simp
  have g: "gz_path_of ex_snapshot ''data/odds'' = ''data/odds/2025/01/2025-01-15.json.gz''"
    by code_simp
  have p: "''data/odds'' \<noteq> [] \<and> last ''data/odds'' \<noteq> CHR ''/'' \<and> is_ymd (snap_date ex_snapshot)"
    by code_simp
  note a = save_snapshot_ordered[of ex_snapshot "''data/odds''" ex_world_gz_fails]
  note b = save_snapshot_ordered[of ex_snapshot "''data/odds''" ex_world]
  from a f t1 r1 have A: "w_trace (fst (save_snapshot ex_snapshot ''data/odds'' ex_world_gz_fails))
       = [MakeDirs ''data/odds/2025/01'', MakeDirs ''data/odds'',
          WriteGz ''data/odds/2025/01/2025-01-15.json.gz'']"
     "snd (save_snapshot ex_snapshot ''data/odds'' ex_world_gz_fails) = Inl PermissionError"
     "WriteText (latest_path_of ''data/odds'')
       \<notin> set (attempted ex_world_gz_fails (save_calls ex_snapshot ''data/odds''))"
    by simp_all
  from b ok t2 g p have B: "snd (save_snapshot ex_snapshot ''data/odds'' ex_world) = Inr ''data/odds/2025/01/2025-01-15.json.gz''"
    "w_trace (fst (save_snapshot ex_snapshot ''data/odds'' ex_world))
       = [MakeDirs ''data/odds/2025/01'', MakeDirs ''data/odds'',
          WriteGz ''data/odds/2025/01/2025-01-15.json.gz'', WriteText ''data/odds/latest.json'']"
    "w_files (fst (save_snapshot ex_snapshot ''data/odds'' ex_world)) (latest_path_of ''data/odds'')
       = Some \<lparr>f_mtime = w_now ex_world, f_body = IndentedJson ex_snapshot\<rparr>"
    "gz_path_of ex_snapshot ''data/odds'' = spec_archive_path ''data/odds'' (snap_date ex_snapshot)"
    by simp_all
  from f A ok B p show ?thesis by blast
qed

section \<open>Retention pruning\<close>

lemma prune_file_skip:
  "\<not> is_archive_name fn \<Longrightarrow> prune_file cutoff d fn st = st"
  by (auto simp: prune_file_def is_archive_name_def Let_def)

lemma prune_file_fault [simp]: "w_fault (fst (prune_file cutoff d fn st)) = w_fault (fst st)"
  by (simp add: prune_file_def Let_def os_stat_def os_remove_def attempt_def prune_except_def
      split: option.split sum.split)

lemma prune_file_removable:
  assumes "is_archive_name fn" "removable (fst st) cutoff (os_path_join d [fn])"
  shows "w_files (fst (prune_file cutoff d fn st)) = (w_files (fst st))(os_path_join d [fn] := None)"
    and "snd (prune_file cutoff d fn st) = snd st @ [os_path_join d [fn]]"
  using assms
  by (auto simp: prune_file_def is_archive_name_def removable_def expired_def Let_def
      os_stat_def os_remove_def attempt_def split: option.splits)

lemma prune_file_kept:
  assumes "is_archive_name fn" "\<not> removable (fst st) cutoff (os_path_join d [fn])"
  shows "w_files (fst (prune_file cutoff d fn st)) = w_files (fst st)"
    and "snd (prune_file cutoff d fn st) = snd st"
  using assms
  by (auto simp: prune_file_def is_archive_name_def removable_def expired_def Let_def
      os_stat_def os_remove_def attempt_def prune_except_def split: option.splits)

lemma prune_file_trace_mono:
  "set (w_trace (fst st)) \<subseteq> set (w_trace (fst (prune_file cutoff d fn st)))"
  by (auto simp: prune_file_def Let_def os_stat_def os_remove_def attempt_def prune_except_def
      split: option.splits sum.splits)

lemma prune_file_visits:
  "is_archive_name fn \<Longrightarrow> Stat (os_path_join d [fn]) \<in> set (w_trace (fst (prune_file cutoff d fn st)))"
  by (auto simp: prune_file_def is_archive_name_def Let_def os_stat_def os_remove_def attempt_def
      prune_except_def split: option.splits sum.splits)


lemma removable_cong:
  "w_files w1 = w_files w \<Longrightarrow> w_fault w1 = w_fault w \<Longrightarrow> removable w1 c p = removable w c p"
  by (simp add: removable_def expired_def)

lemma removable_after_remove:
  "w_files w1 = (w_files w)(fp := None) \<Longrightarrow> w_fault w1 = w_fault w \<Longrightarrow>
   removable w1 c p = (p \<noteq> fp \<and> removable w c p)"
  by (auto simp: removable_def expired_def)

lemma removable_exists: "removable w c p \<Longrightarrow> w_files w p \<noteq> None"
  by (auto simp: removable_def expired_def split: option.splits)

lemma foldl_map_pair:
  "foldl (\<lambda>acc fn. prune_file cutoff d fn acc) st fns
     = foldl (\<lambda>acc df. prune_file cutoff (fst df) (snd df) acc) st (map (Pair d) fns)"
  by (induction fns arbitrary: st) simp_all

lemma prune_flatten:
  "foldl (prune_dir cutoff) st entries
     = foldl (\<lambda>acc df. prune_file cutoff (fst df) (snd df) acc) st (walk_pairs entries)"
  by (induction entries arbitrary: st) (simp_all add: walk_pairs_def prune_dir_def foldl_map_pair)

lemma prune_fold_invariant:
  fixes cutoff :: real
  defines "F \<equiv> foldl (\<lambda>acc df. prune_file cutoff (fst df) (snd df) acc)"
  shows "w_fault (fst (F st pairs)) = w_fault (fst st)
    \<and> set (snd (F st pairs))
        = set (snd st) \<union> {p \<in> set (map pair_path (filter (\<lambda>df. is_archive_name (snd df)) pairs)).
                            removable (fst st) cutoff p}
    \<and> (\<forall>p. w_files (fst (F st pairs)) p
          = (if p \<in> set (map pair_path (filter (\<lambda>df. is_archive_name (snd df)) pairs))
                \<and> removable (fst st) cutoff p
             then None else w_files (fst st) p))
    \<and> (distinct (snd st) \<and> (\<forall>p\<in>set (snd st). w_files (fst st) p = None)
          \<longrightarrow> distinct (snd (F st pairs)))"
proof (induction pairs arbitrary: st)
  case Nil
  show ?case by (simp add: F_def)
next
  case (Cons df rest)
  let ?st1 = "prune_file cutoff (fst df) (snd df) st"
  let ?fp = "os_path_join (fst df) [snd df]"
  have step: "F st (df # rest) = F ?st1 rest" by (simp add: F_def)
  note IH = Cons.IH[of ?st1]
  show ?case
  proof (cases "is_archive_name (snd df)")
    case False
    then have "?st1 = st" by (rule prune_file_skip)
    with IH False show ?thesis unfolding step by simp
  next
    case True
    show ?thesis
    proof (cases "removable (fst st) cutoff ?fp")
      case rm: True
      have f1: "w_files (fst ?st1) = (w_files (fst st))(?fp := None)"
        and r1: "snd ?st1 = snd st @ [?fp]"
        using prune_file_removable[OF True rm] by simp_all
      have ft: "w_fault (fst ?st1) = w_fault (fst st)" by simp
      have rem1: "removable (fst ?st1) cutoff p = (p \<noteq> ?fp \<and> removable (fst st) cutoff p)" for p
        using removable_after_remove[OF f1 ft] by simp
      have ex: "w_files (fst st) ?fp \<noteq> None" using rm by (rule removable_exists)
      have d: "distinct (snd st) \<and> (\<forall>p\<in>set (snd st). w_files (fst st) p = None)
                 \<Longrightarrow> distinct (snd ?st1) \<and> (\<forall>p\<in>set (snd ?st1). w_files (fst ?st1) p = None)"
        using ex by (auto simp: r1 f1)
      show ?thesis
        unfolding step using IH True rm d
        by (auto simp: ft rem1 r1 f1 pair_path_def)
    next
      case nrm: False
      have f1: "w_files (fst ?st1) = w_files (fst st)" and r1: "snd ?st1 = snd st"
        using prune_file_kept[OF True nrm] by simp_all
      have ft: "w_fault (fst ?st1) = w_fault (fst st)" by simp
      have rem1: "removable (fst ?st1) cutoff p = removable (fst st) cutoff p" for p
        using removable_cong[OF f1 ft] by simp
      show ?thesis
        unfolding step using IH True nrm
        by (auto simp: ft rem1 r1 f1 pair_path_def)
    qed
  qed
qed

lemma prune_fold_trace_mono:
  "set (w_trace (fst st))
     \<subseteq> set (w_trace (fst (foldl (\<lambda>acc df. prune_file cutoff (fst df) (snd df) acc) st pairs)))"
proof (induction pairs arbitrary: st)
  case Nil
  show ?case by simp
next
  case (Cons df rest)
  from prune_file_trace_mono[of st cutoff "fst df" "snd df"]
       Cons.IH[of "prune_file cutoff (fst df) (snd df) st"]
  show ?case by auto
qed

lemma prune_fold_visits:
  "p \<in> set (map pair_path (filter (\<lambda>df. is_archive_name (snd df)) pairs)) \<Longrightarrow>
   Stat p \<in> set (w_trace (fst (foldl (\<lambda>acc df. prune_file cutoff (fst df) (snd df) acc) st pairs)))"
proof (induction pairs arbitrary: st)
  case Nil
  then show ?case by simp
next
  case (Cons df rest)
  let ?st1 = "prune_file cutoff (fst df) (snd df) st"
  show ?case
  proof (cases "is_archive_name (snd df) \<and> p = pair_path df")
    case True
    then have "Stat p \<in> set (w_trace (fst ?st1))"
      using prune_file_visits[of "snd df" "fst df" cutoff st] by (simp add: pair_path_def)
    then show ?thesis
      using prune_fold_trace_mono[of ?st1 cutoff rest] by auto
  next
    case False
    with Cons.prems have "p \<in> set (map pair_path (filter (\<lambda>df. is_archive_name (snd df)) rest))"
      by (auto split: if_splits)
    from Cons.IH[OF this, of ?st1] show ?thesis by simp
  qed
qed


lemma prune_unfold:
  "0 < retention_days \<Longrightarrow>
   prune_old_snapshots out_dir retention_days w
     = foldl (\<lambda>acc df. prune_file (spec_cutoff w retention_days) (fst df) (snd df) acc) (w, [])
         (walk_pairs (w_walk w out_dir))"
  by (simp add: prune_old_snapshots_def spec_cutoff_def Let_def prune_flatten)

lemma prune_characterisation:
  assumes "0 < retention_days"
  shows "set (snd (prune_old_snapshots out_dir retention_days w))
           = {p \<in> set (prune_candidates w out_dir). removable w (spec_cutoff w retention_days) p}"
    and "distinct (snd (prune_old_snapshots out_dir retention_days w))"
    and "w_files (fst (prune_old_snapshots out_dir retention_days w)) p
           = (if p \<in> set (prune_candidates w out_dir) \<and> removable w (spec_cutoff w retention_days) p
              then None else w_files w p)"
  using prune_fold_invariant[of "spec_cutoff w retention_days" "(w, [])" "walk_pairs (w_walk w out_dir)"]
  by (simp_all add: prune_unfold[OF assms] prune_candidates_def)

lemma prune_visits_all:
  assumes "0 < retention_days" "p \<in> set (prune_candidates w out_dir)"
  shows "Stat p \<in> set (w_trace (fst (prune_old_snapshots out_dir retention_days w)))"
  using prune_fold_visits[of p "walk_pairs (w_walk w out_dir)" "spec_cutoff w retention_days" "(w, [])"]
        assms(2)
  by (simp add: prune_unfold[OF assms(1)] prune_candidates_def)

lemma archive_name_last: "is_archive_name fn \<Longrightarrow> fn \<noteq> [] \<and> last fn = CHR ''z''"
proof -
  assume "is_archive_name fn"
  then have sw: "startswith (rev fn) (rev ''.json.gz'')"
    by (simp add: is_archive_name_def endswith_def)
  then obtain cs where r: "rev fn = CHR ''z'' # cs"
    by (cases "rev fn") auto
  then have "fn = rev cs @ ''z''" by (metis rev_rev_ident rev.simps(2))
  then show ?thesis by simp
qed

lemma last_join2: "b \<noteq> [] \<Longrightarrow> last (join2 p b) = last b"
  by (simp add: join2_def)

lemma candidate_last: "p \<in> set (prune_candidates w out_dir) \<Longrightarrow> last p = CHR ''z''"
  by (auto simp: prune_candidates_def pair_path_def os_path_join_def last_join2
      dest!: archive_name_last)

lemma latest_not_candidate: "os_path_join d [''latest.json''] \<notin> set (prune_candidates w out_dir)"
proof
  assume "os_path_join d [''latest.json''] \<in> set (prune_candidates w out_dir)"
  then have "last (os_path_join d [''latest.json'']) = CHR ''z''" by (rule candidate_last)
  then show False by (simp add: os_path_join_def last_join2)
qed

lemma removable_no_fault:
  "\<forall>c. w_fault w c = None \<Longrightarrow> removable w cutoff p = expired w cutoff p"
  by (simp add: removable_def)

text \<open>
  C6. With a retention of zero or fewer days the pruner removes nothing: it returns the
  world as it was and an empty list. With a positive retention, and when no \<^verbatim>\<open>stat\<close> or
  \<^verbatim>\<open>remove\<close> call fails, the removed paths are exactly the listed files whose name ends in
  \<^verbatim>\<open>.json.gz\<close> and whose modification time is older than now minus the retention days times
  86400 seconds; afterwards exactly these files are gone and every other file is as it was.
  A file named \<^verbatim>\<open>latest.json\<close> is never removed, whatever its age, the retention and the
  failures. (Times are real numbers; the rounding of binary floating point is not modelled.)
\<close>

theorem prune_removes_exactly:
  "(retention_days \<le> 0 \<longrightarrow> prune_old_snapshots out_dir retention_days w = (w, []))
   \<and> (0 < retention_days \<and> (\<forall>c. w_fault w c = None) \<longrightarrow>
        set (snd (prune_old_snapshots out_dir retention_days w))
          = {p \<in> set (prune_candidates w out_dir). expired w (spec_cutoff w retention_days) p}
        \<and> (\<forall>p. w_files (fst (prune_old_snapshots out_dir retention_days w)) p
               = (if p \<in> set (prune_candidates w out_dir)
                     \<and> expired w (spec_cutoff w retention_days) p
                  then None else w_files w p)))
   \<and> w_files (fst (prune_old_snapshots out_dir retention_days w)) (os_path_join d [''latest.json''])
       = w_files w (os_path_join d [''latest.json''])"
proof (intro conjI impI allI)
  assume "retention_days \<le> 0"
  then show "prune_old_snapshots out_dir retention_days w = (w, [])"
    by (simp add: prune_old_snapshots_def)
next
  assume a: "0 < retention_days \<and> (\<forall>c. w_fault w c = None)"
  then show "set (snd (prune_old_snapshots out_dir retention_days w))
          = {p \<in> set (prune_candidates w out_dir). expired w (spec_cutoff w retention_days) p}"
    using prune_characterisation(1)[of retention_days out_dir w]
    by (simp add: removable_no_fault)
next
  fix p
  assume a: "0 < retention_days \<and> (\<forall>c. w_fault w c = None)"
  then show "w_files (fst (prune_old_snapshots out_dir retention_days w)) p
               = (if p \<in> set (prune_candidates w out_dir)
                     \<and> expired w (spec_cutoff w retention_days) p
                  then None else w_files w p)"
    using prune_characterisation(3)[of retention_days out_dir w p]
    by (simp add: removable_no_fault)
next
  show "w_files (fst (prune_old_snapshots out_dir retention_days w)) (os_path_join d [''latest.json''])
       = w_files w (os_path_join d [''latest.json''])"
  proof (cases "0 < retention_days")
    case True
    then show ?thesis
      using prune_characterisation(3)[of retention_days out_dir w "os_path_join d [''latest.json'']"]
            latest_not_candidate[of d w out_dir]
      by simp
  next
    case False
    then show ?thesis by (simp add: prune_old_snapshots_def)
  qed
qed

text \<open>
  Ninety days of retention at day 1000: the files of days 900, 880 and 860 are removed, the
  file of day 990 and the old \<^verbatim>\<open>latest.json\<close> stay; with a retention of zero nothing
  happens.
\<close>

theorem prune_removes_exactly_witness:
  "(0::int) \<le> 0
   \<and> prune_old_snapshots ''data/odds'' 0 ex_prune_world = (ex_prune_world, [])
   \<and> (0::int) < 90 \<and> w_fault ex_prune_world = (\<lambda>c. None)
   \<and> snd (prune_old_snapshots ''data/odds'' 90 ex_prune_world)
       = [''data/odds/a/d900.json.gz'', ''data/odds/a/d880.json.gz'', ''data/odds/b/d860.json.gz'']
   \<and> set (snd (prune_old_snapshots ''data/odds'' 90 ex_prune_world))
       = {p \<in> set (prune_candidates ex_prune_world ''data/odds'').
            expired ex_prune_world (spec_cutoff ex_prune_world 90) p}
   \<and> w_files (fst (prune_old_snapshots ''data/odds'' 90 ex_prune_world)) ''data/odds/a/d990.json.gz''
       = w_files ex_prune_world ''data/odds/a/d990.json.gz''
   \<and> w_files ex_prune_world ''data/odds/a/d990.json.gz'' = Some (ex_file 85536000)
   \<and> w_files (fst (prune_old_snapshots ''data/odds'' 90 ex_prune_world)) ''data/odds/a/d900.json.gz''
       = None
   \<and> w_files (fst (prune_old_snapshots ''data/odds'' 90 ex_prune_world))
         (os_path_join ''data/odds'' [''latest.json''])
       = w_files ex_prune_world (os_path_join ''data/odds'' [''latest.json''])
   \<and> w_files ex_prune_world (os_path_join ''data/odds'' [''latest.json'']) = Some (ex_file 0)"
proof -
  have nf: "\<forall>c. w_fault ex_prune_world c = None" by (simp add: ex_prune_world_def)
  have nf': "w_fault ex_prune_world = (\<lambda>c. None)" by (simp add: ex_prune_world_def)
  have r: "snd (prune_old_snapshots ''data/odds'' 90 ex_prune_world)
       = [''data/odds/a/d900.json.gz'', ''data/odds/a/d880.json.gz'', ''data/odds/b/d860.json.gz'']"
    by code_simp
  have c1: "''data/odds/a/d990.json.gz'' \<in> set (prune_candidates ex_prune_world ''data/odds'')"
    by code_simp
  have e1: "\<not> expired ex_prune_world (spec_cutoff ex_prune_world 90) ''data/odds/a/d990.json.gz''"
    by code_simp
  have c2: "''data/odds/a/d900.json.gz'' \<in> set (prune_candidates ex_prune_world ''data/odds'')"
    by code_simp
  have e2: "expired ex_prune_world (spec_cutoff ex_prune_world 90) ''data/odds/a/d900.json.gz''"
    by code_simp
  have f1: "w_files ex_prune_world ''data/odds/a/d990.json.gz'' = Some (ex_file 85536000)"
    by (simp add: ex_prune_world_def)
  have f2: "w_files ex_prune_world (os_path_join ''data/odds'' [''latest.json'']) = Some (ex_file 0)"
    by (simp add: ex_prune_world_def os_path_join_def join2_def endswith_def)
  note t0 = prune_removes_exactly[of 0 "''data/odds''" ex_prune_world "''data/odds''"]
  note t90 = prune_removes_exactly[of 90 "''data/odds''" ex_prune_world "''data/odds''"]
  from t0 have z: "prune_old_snapshots ''data/odds'' 0 ex_prune_world = (ex_prune_world, [])"
    by simp
  have pos: "(0::int) < 90" by simp
  from t90 pos nf have big: "set (snd (prune_old_snapshots ''data/odds'' 90 ex_prune_world))
       = {p \<in> set (prune_candidates ex_prune_world ''data/odds'').
            expired ex_prune_world (spec_cutoff ex_prune_world 90) p}
     \<and> (\<forall>p. w_files (fst (prune_old_snapshots ''data/odds'' 90 ex_prune_world)) p
               = (if p \<in> set (prune_candidates ex_prune_world ''data/odds'')
                     \<and> expired ex_prune_world (spec_cutoff ex_prune_world 90) p
                  then None else w_files ex_prune_world p))"
    by blast
  note s = big[THEN conjunct1] and fl = big[THEN conjunct2, rule_format]
  from t90 have lt: "w_files (fst (prune_old_snapshots ''data/odds'' 90 ex_prune_world))
         (os_path_join ''data/odds'' [''latest.json''])
       = w_files ex_prune_world (os_path_join ''data/odds'' [''latest.json''])"
    by blast
  have k: "w_files (fst (prune_old_snapshots ''data/odds'' 90 ex_prune_world)) ''data/odds/a/d990.json.gz''
       = w_files ex_prune_world ''data/odds/a/d990.json.gz''"
    using fl[of "''data/odds/a/d990.json.gz''"] e1 by simp
  have g: "w_files (fst (prune_old_snapshots ''data/odds'' 90 ex_prune_world)) ''data/odds/a/d900.json.gz''
       = None"
    using fl[of "''data/odds/a/d900.json.gz''"] c2 e2 by simp
  from z nf' r s k f1 g lt f2 show ?thesis by simp
qed

text \<open>
  C9. The pruner never raises: whatever calls fail, it returns the list of removed paths.
  With a positive retention the returned paths are exactly the candidates that were expired
  and whose \<^verbatim>\<open>stat\<close> and \<^verbatim>\<open>remove\<close> both succeeded, each once; exactly the returned paths are
  gone from the file system afterwards, so a path whose removal failed is not in the list
  and its file is untouched; and every candidate of the walk was looked at (its \<^verbatim>\<open>stat\<close> is
  in the trace), also those listed after a failure.
\<close>

theorem prune_tolerates_failures:
  "0 < retention_days \<Longrightarrow>
   set (snd (prune_old_snapshots out_dir retention_days w))
     = {p \<in> set (prune_candidates w out_dir). removable w (spec_cutoff w retention_days) p}
   \<and> distinct (snd (prune_old_snapshots out_dir retention_days w))
   \<and> (\<forall>p. w_files (fst (prune_old_snapshots out_dir retention_days w)) p
          = (if p \<in> set (snd (prune_old_snapshots out_dir retention_days w)) then None
             else w_files w p))
   \<and> (\<forall>p\<in>set (prune_candidates w out_dir).
          Stat p \<in> set (w_trace (fst (prune_old_snapshots out_dir retention_days w))))
   \<and> (\<forall>p. w_fault w (Stat p) \<noteq> None \<or> w_fault w (Remove p) \<noteq> None \<longrightarrow>
          p \<notin> set (snd (prune_old_snapshots out_dir retention_days w)))"
proof -
  assume pos: "0 < retention_days"
  note c = prune_characterisation[OF pos, of out_dir w]
  have "\<forall>p. w_files (fst (prune_old_snapshots out_dir retention_days w)) p
          = (if p \<in> set (snd (prune_old_snapshots out_dir retention_days w)) then None
             else w_files w p)"
    using c(3) by (simp add: c(1))
  moreover have "\<forall>p\<in>set (prune_candidates w out_dir).
          Stat p \<in> set (w_trace (fst (prune_old_snapshots out_dir retention_days w)))"
    using prune_visits_all[OF pos] by blast
  moreover have "\<forall>p. w_fault w (Stat p) \<noteq> None \<or> w_fault w (Remove p) \<noteq> None \<longrightarrow>
          p \<notin> set (snd (prune_old_snapshots out_dir retention_days w))"
    by (auto simp: c(1) removable_def)
  ultimately show ?thesis using c(1) c(2) by blast
qed

text \<open>
  The same tree, where the file of day 880 cannot be removed and the listed file of day 870
  is already gone: the files of days 900 and 860 are removed and reported, the failure of
  day 880 is printed as a warning, and the scan reaches the second directory.
\<close>

theorem prune_tolerates_failures_witness:
  "(0::int) < 90
   \<and> w_fault ex_prune_world_locked (Remove ''data/odds/a/d880.json.gz'') = Some PermissionError
   \<and> w_files ex_prune_world_locked ''data/odds/a/d870.json.gz'' = None
   \<and> snd (prune_old_snapshots ''data/odds'' 90 ex_prune_world_locked)
       = [''data/odds/a/d900.json.gz'', ''data/odds/b/d860.json.gz'']
   \<and> set (snd (prune_old_snapshots ''data/odds'' 90 ex_prune_world_locked))
       = {p \<in> set (prune_candidates ex_prune_world_locked ''data/odds'').
            removable ex_prune_world_locked (spec_cutoff ex_prune_world_locked 90) p}
   \<and> distinct (snd (prune_old_snapshots ''data/odds'' 90 ex_prune_world_locked))
   \<and> ''data/odds/a/d880.json.gz'' \<notin> set (snd (prune_old_snapshots ''data/odds'' 90 ex_prune_world_locked))
   \<and> w_files (fst (prune_old_snapshots ''data/odds'' 90 ex_prune_world_locked)) ''data/odds/a/d880.json.gz''
       = w_files ex_prune_world_locked ''data/odds/a/d880.json.gz''
   \<and> Stat ''data/odds/b/d860.json.gz''
       \<in> set (w_trace (fst (prune_old_snapshots ''data/odds'' 90 ex_prune_world_locked)))
   \<and> w_files (fst (prune_old_snapshots ''data/odds'' 90 ex_prune_world_locked)) ''data/odds/b/d860.json.gz''
       = None
   \<and> w_stdout (fst (prune_old_snapshots ''data/odds'' 90 ex_prune_world_locked))
       = [(''data/odds/a/d880.json.gz'', PermissionError)]"
proof -
  have pos: "(0::int) < 90" by simp
  have f: "w_fault ex_prune_world_locked (Remove ''data/odds/a/d880.json.gz'') = Some PermissionError"
    by code_simp
  have m: "w_files ex_prune_world_locked ''data/odds/a/d870.json.gz'' = None"
    by code_simp
  have r: "snd (prune_old_snapshots ''data/odds'' 90 ex_prune_world_locked)
       = [''data/odds/a/d900.json.gz'', ''data/odds/b/d860.json.gz'']"
    by code_simp
  have c: "''data/odds/b/d860.json.gz'' \<in> set (prune_candidates ex_prune_world_locked ''data/odds'')"
    by code_simp
  have o: "w_stdout (fst (prune_old_snapshots ''data/odds'' 90 ex_prune_world_locked))
       = [(''data/odds/a/d880.json.gz'', PermissionError)]"
    by code_simp
  note t = prune_tolerates_failures[OF pos, of "''data/odds''" ex_prune_world_locked]
  from t have s: "set (snd (prune_old_snapshots ''data/odds'' 90 ex_prune_world_locked))
       = {p \<in> set (prune_candidates ex_prune_world_locked ''data/odds'').
            removable ex_prune_world_locked (spec_cutoff ex_prune_world_locked 90) p}"
    and d: "distinct (snd (prune_old_snapshots ''data/odds'' 90 ex_prune_world_locked))"
    and fl: "\<And>p. w_files (fst (prune_old_snapshots ''data/odds'' 90 ex_prune_world_locked)) p
          = (if p \<in> set (snd (prune_old_snapshots ''data/odds'' 90 ex_prune_world_locked)) then None
             else w_files ex_prune_world_locked p)"
    and v: "\<And>p. p \<in> set (prune_candidates ex_prune_world_locked ''data/odds'') \<Longrightarrow>
          Stat p \<in> set (w_trace (fst (prune_old_snapshots ''data/odds'' 90 ex_prune_world_locked)))"
    and n: "\<And>p. w_fault ex_prune_world_locked (Stat p) \<noteq> None
                  \<or> w_fault ex_prune_world_locked (Remove p) \<noteq> None \<Longrightarrow>
          p \<notin> set (snd (prune_old_snapshots ''data/odds'' 90 ex_prune_world_locked))"
    by blast+
  have n1: "''data/odds/a/d880.json.gz'' \<notin> set (snd (prune_old_snapshots ''data/odds'' 90 ex_prune_world_locked))"
    using n[of "''data/odds/a/d880.json.gz''"] f by simp
  have k: "w_files (fst (prune_old_snapshots ''data/odds'' 90 ex_prune_world_locked)) ''data/odds/a/d880.json.gz''
       = w_files ex_prune_world_locked ''data/odds/a/d880.json.gz''"
    using fl[of "''data/odds/a/d880.json.gz''"] n1 by simp
  have g: "w_files (fst (prune_old_snapshots ''data/odds'' 90 ex_prune_world_locked)) ''data/odds/b/d860.json.gz''
       = None"
    using fl[of "''data/odds/b/d860.json.gz''"] r by simp
  from pos f m r s d n1 k v[OF c] g o show ?thesis by blast
qed

section \<open>The daily pipeline\<close>

subsection \<open>The snapshot's count\<close>

lemma odds_loop_empty_index: "odds_loop items [] = Inr []"
  by (induction items) (simp_all add: Let_def)

lemma index_fixtures_ok:
  assumes "\<forall>f\<in>set fs. fx_id f \<noteq> None \<and> fx_league_id f \<noteq> None"
  shows "\<exists>by'. index_fixtures fs by = Inr by'
           \<and> fst ` set by' = fst ` set by \<union> (\<lambda>f. the (fx_id f)) ` set fs
           \<and> (distinct (map fst by) \<longrightarrow> distinct (map fst by'))
           \<and> ((\<forall>e\<in>set by. r_markets (snd e) = []) \<longrightarrow> (\<forall>e\<in>set by'. r_markets (snd e) = []))"
  using assms
proof (induction fs arbitrary: "by")
  case Nil
  then show ?case by simp
next
  case (Cons f fs)
  from Cons.prems obtain fid lid where ids: "fx_id f = Some fid" "fx_league_id f = Some lid"
    by auto
  let ?r = "\<lparr>r_fixtureId = fid, r_date = fx_date f, r_status = fx_status f,
             r_leagueId = lid, r_league = fx_league f, r_home = fx_home f,
             r_away = fx_away f, r_markets = []\<rparr>"
  let ?by1 = "AList.update fid ?r by"
  from Cons.prems have "\<forall>f\<in>set fs. fx_id f \<noteq> None \<and> fx_league_id f \<noteq> None" by simp
  from Cons.IH[OF this, of ?by1] obtain by' where
    a: "index_fixtures fs ?by1 = Inr by'"
    and b: "fst ` set by' = fst ` set ?by1 \<union> (\<lambda>f. the (fx_id f)) ` set fs"
    and c: "distinct (map fst ?by1) \<longrightarrow> distinct (map fst by')"
    and d: "(\<forall>e\<in>set ?by1. r_markets (snd e) = []) \<longrightarrow> (\<forall>e\<in>set by'. r_markets (snd e) = [])"
    by blast
  have e1: "(\<forall>e\<in>set by. r_markets (snd e) = []) \<Longrightarrow> (\<forall>e\<in>set ?by1. r_markets (snd e) = [])"
  proof
    fix e assume h: "\<forall>e\<in>set by. r_markets (snd e) = []" and e: "e \<in> set ?by1"
    then have "(fst e, snd e) = (fid, ?r) \<or> (fst e, snd e) \<in> set by"
      using in_set_update[of "fst e" "snd e" fid ?r "by"] by simp
    then show "r_markets (snd e) = []" using h by auto
  qed
  show ?case
    using a b c d e1 ids by (auto simp: dom_update distinct_update)
qed

lemma build_snapshot_count:
  "build_snapshot d fs os = Inr s \<Longrightarrow> snap_count s = length (snap_items s)"
  by (auto simp: build_snapshot_def Let_def split: sum.splits)

lemma build_snapshot_no_fixtures:
  "build_snapshot d [] os = Inr \<lparr>snap_date = d, snap_count = 0, snap_items = []\<rparr>"
  by (simp add: build_snapshot_def odds_loop_empty_index)

lemma build_snapshot_no_odds:
  assumes "\<forall>f\<in>set fs. fx_id f \<noteq> None \<and> fx_league_id f \<noteq> None"
  shows "\<exists>s. build_snapshot d fs [] = Inr s \<and> snap_count s = card (fx_id ` set fs)
           \<and> snap_count s = length (snap_items s)
           \<and> (\<forall>r\<in>set (snap_items s). r_markets r = [])"
proof -
  from index_fixtures_ok[OF assms, of "[]"] obtain by' where
    a: "index_fixtures fs [] = Inr by'"
    and b: "fst ` set by' = (\<lambda>f. the (fx_id f)) ` set fs"
    and c: "distinct (map fst by')"
    and d: "\<forall>e\<in>set by'. r_markets (snd e) = []"
    by auto
  have "length by' = card (fst ` set by')"
    using c distinct_card[of "map fst by'"] by simp
  also have "\<dots> = card (the ` (fx_id ` set fs))" by (simp add: b image_image)
  also have "\<dots> = card (fx_id ` set fs)"
  proof (rule card_image)
    show "inj_on the (fx_id ` set fs)"
    proof (rule inj_onI)
      fix a b assume "a \<in> fx_id ` set fs" "b \<in> fx_id ` set fs" "the a = the b"
      moreover from this assms have "a \<noteq> None" "b \<noteq> None" by auto
      ultimately show "a = b" by (metis option.expand)
    qed
  qed
  finally have len: "length by' = card (fx_id ` set fs)" .
  show ?thesis
    using a len d by (simp add: build_snapshot_def Let_def)
qed

text \<open>
  C7, as stated, fails in its second half: a day with fixtures and no odds does not give an
  empty fixture list. The fixtures are indexed before any odds are read, so the one fixture
  of the day is in the snapshot, with no markets, and the count is one.
\<close>

theorem zero_odds_nonempty_snapshot:
  "build_snapshot ''2025-01-15'' [ex_fixture] []
     = Inr \<lparr>snap_date = ''2025-01-15'', snap_count = 1, snap_items = [ex_record]\<rparr>"
  by code_simp

text \<open>
  C7, amended. For every produced snapshot the count equals the length of the fixture
  list. With zero fixtures the snapshot is produced with an empty list and count zero,
  whatever the odds responses hold. With zero odds, and fixtures that all carry a fixture id
  and a league id, the snapshot is produced with one record per distinct fixture id, each
  with an empty markets mapping, and the count is the number of distinct ids.
\<close>

theorem snapshot_count:
  "(build_snapshot d fs os = Inr s \<longrightarrow> snap_count s = length (snap_items s))
   \<and> build_snapshot d [] os = Inr \<lparr>snap_date = d, snap_count = 0, snap_items = []\<rparr>
   \<and> ((\<forall>f\<in>set fs. fx_id f \<noteq> None \<and> fx_league_id f \<noteq> None) \<longrightarrow>
        (\<exists>s'. build_snapshot d fs [] = Inr s' \<and> snap_count s' = card (fx_id ` set fs)
           \<and> snap_count s' = length (snap_items s')
           \<and> (\<forall>r\<in>set (snap_items s'). r_markets r = [])))"
  using build_snapshot_count build_snapshot_no_fixtures build_snapshot_no_odds by blast

theorem snapshot_count_witness:
  "build_snapshot ''2025-01-15'' [ex_fixture] ex_odds
     = Inr \<lparr>snap_date = ''2025-01-15'', snap_count = 1,
            snap_items = [ex_record\<lparr>r_markets :=
               [(''btts'', [(''yes'', JStr ''1.70''), (''no'', JNull), (''bookmaker'', JStr ''Acme'')])]\<rparr>]\<rparr>
   \<and> snap_count \<lparr>snap_date = ''2025-01-15'', snap_count = 1,
            snap_items = [ex_record\<lparr>r_markets :=
               [(''btts'', [(''yes'', JStr ''1.70''), (''no'', JNull), (''bookmaker'', JStr ''Acme'')])]\<rparr>]\<rparr>
       = length (snap_items \<lparr>snap_date = ''2025-01-15'', snap_count = 1,
            snap_items = [ex_record\<lparr>r_markets :=
               [(''btts'', [(''yes'', JStr ''1.70''), (''no'', JNull), (''bookmaker'', JStr ''Acme'')])]\<rparr>]\<rparr>)
   \<and> build_snapshot ''2025-01-15'' [] ex_odds
       = Inr \<lparr>snap_date = ''2025-01-15'', snap_count = 0, snap_items = []\<rparr>
   \<and> fx_id ex_fixture \<noteq> None \<and> fx_league_id ex_fixture \<noteq> None
   \<and> (\<exists>s'. build_snapshot ''2025-01-15'' [ex_fixture] [] = Inr s'
          \<and> snap_count s' = card (fx_id ` set [ex_fixture])
          \<and> snap_count s' = length (snap_items s'))"
proof -
  have a: "build_snapshot ''2025-01-15'' [ex_fixture] ex_odds
     = Inr \<lparr>snap_date = ''2025-01-15'', snap_count = 1,
            snap_items = [ex_record\<lparr>r_markets :=
               [(''btts'', [(''yes'', JStr ''1.70''), (''no'', JNull), (''bookmaker'', JStr ''Acme'')])]\<rparr>]\<rparr>"
    by code_simp
  have h: "\<forall>f\<in>set [ex_fixture]. fx_id f \<noteq> None \<and> fx_league_id f \<noteq> None"
    by (simp add: ex_fixture_def)
  note t = snapshot_count[of "''2025-01-15''" "[ex_fixture]" ex_odds]
  note u = snapshot_count[of "''2025-01-15''" "[]" ex_odds]
  from t a have c1: "snap_count \<lparr>snap_date = ''2025-01-15'', snap_count = 1,
            snap_items = [ex_record\<lparr>r_markets :=
               [(''btts'', [(''yes'', JStr ''1.70''), (''no'', JNull), (''bookmaker'', JStr ''Acme'')])]\<rparr>]\<rparr>
       = length (snap_items \<lparr>snap_date = ''2025-01-15'', snap_count = 1,
            snap_items = [ex_record\<lparr>r_markets :=
               [(''btts'', [(''yes'', JStr ''1.70''), (''no'', JNull), (''bookmaker'', JStr ''Acme'')])]\<rparr>]\<rparr>)"
    by blast
  from u have c2: "build_snapshot ''2025-01-15'' [] ex_odds
       = Inr \<lparr>snap_date = ''2025-01-15'', snap_count = 0, snap_items = []\<rparr>"
    by blast
  from t h have c3: "\<exists>s'. build_snapshot ''2025-01-15'' [ex_fixture] [] = Inr s'
          \<and> snap_count s' = card (fx_id ` set [ex_fixture])
          \<and> snap_count s' = length (snap_items s')"
    by blast
  from a c1 c2 c3 h show ?thesis by simp
qed

subsection \<open>Merging the odds responses of one fixture\<close>

lemma dict_update_lookup:
  "distinct (map fst other) \<Longrightarrow>
   map_of (dict_update d other) k = (case map_of other k of Some v \<Rightarrow> Some v | None \<Rightarrow> map_of d k)"
proof (induction other arbitrary: d)
  case Nil
  then show ?case by (simp add: dict_update_def)
next
  case (Cons x xs)
  have step: "dict_update d (x # xs) = dict_update (AList.update (fst x) (snd x) d) xs"
    by (simp add: dict_update_def)
  from Cons.prems have dx: "distinct (map fst xs)" and nin: "fst x \<notin> fst ` set xs" by auto
  from nin have none: "map_of xs (fst x) = None" by (simp add: map_of_eq_None_iff)
  show ?case
    unfolding step Cons.IH[OF dx]
    using none by (cases x) (auto simp: update_conv' split: option.split)
qed

lemma dict_update_distinct:
  "distinct (map fst d) \<Longrightarrow> distinct (map fst (dict_update d other))"
  unfolding dict_update_def
  by (induction other arbitrary: d) (simp_all add: distinct_update)

lemma nonempty_items_lookup:
  "distinct (map fst ms) \<Longrightarrow>
   map_of (nonempty_items ms) k
     = (case map_of ms k of Some m \<Rightarrow> if m \<noteq> [] then Some m else None | None \<Rightarrow> None)"
proof (induction ms)
  case Nil
  then show ?case by (simp add: nonempty_items_def)
next
  case (Cons x xs)
  from Cons.prems have dx: "distinct (map fst xs)" and nin: "fst x \<notin> fst ` set xs" by auto
  from nin have none: "map_of xs (fst x) = None" by (simp add: map_of_eq_None_iff)
  have IH: "map_of (filter (\<lambda>kv. snd kv \<noteq> []) xs) k
     = (case map_of xs k of Some m \<Rightarrow> if m \<noteq> [] then Some m else None | None \<Rightarrow> None)"
    using Cons.IH[OF dx] by (simp add: nonempty_items_def)
  show ?case
    using none by (cases x) (auto simp: nonempty_items_def IH split: option.split)
qed

lemma nonempty_items_distinct:
  "distinct (map fst ms) \<Longrightarrow> distinct (map fst (nonempty_items ms))"
  by (simp add: nonempty_items_def distinct_map_filter)

lemma merge_markets_lookup:
  assumes "distinct (map fst ms)"
  shows "map_of (r_markets (merge_markets ms r)) k
     = (case map_of ms k of
          Some m \<Rightarrow> if m \<noteq> [] then Some m else map_of (r_markets r) k
        | None \<Rightarrow> map_of (r_markets r) k)"
  by (simp add: merge_markets_def dict_update_lookup[OF nonempty_items_distinct[OF assms]]
      nonempty_items_lookup[OF assms] split: option.split)

lemma merge_markets_distinct:
  "distinct (map fst (r_markets r)) \<Longrightarrow> distinct (map fst (r_markets (merge_markets ms r)))"
  by (simp add: merge_markets_def dict_update_distinct)

lemma map_entry_lookup:
  "map_of (AList.map_entry fid f by) fid'
     = (if fid' = fid then map_option f (map_of by fid) else map_of by fid')"
  by (simp add: map_of_map_entry map_option_case)

lemma spec_last_write_Cons:
  "spec_last_write init (ms # rest) k
     = spec_last_write (case map_of ms k of
                          Some m \<Rightarrow> if m \<noteq> [] then Some m else init
                        | None \<Rightarrow> init) rest k"
  by (simp add: spec_last_write_def)

lemma markets_seen_skip:
  "item_fid it \<noteq> fid \<Longrightarrow> markets_seen fid (it # items) = markets_seen fid items"
  by (simp add: markets_seen_def)

lemma markets_seen_hit:
  "item_fid it = fid \<Longrightarrow> extract_markets (oi_bookmakers it) = Inr ms \<Longrightarrow>
   markets_seen fid (it # items) = ms # markets_seen fid items"
  by (simp add: markets_seen_def)

text \<open>
  C8. When the loop over the odds responses completes, the markets of a fixture are, per
  market type, the last write: for every key the fixture's entry is what last-write-wins
  gives on the results extracted from that fixture's responses, in order -- a later
  non-empty market replaces the earlier one, a later result without one (or an empty
  result) leaves it unchanged. Every response of the fixture contributed a result, and the
  keys of the merged mapping stay distinct, so no market type has two entries.
\<close>

theorem merge_last_write_wins:
  assumes "odds_loop items by = Inr by'" "map_of by fid = Some r" "fid \<noteq> 0"
  shows "\<exists>r'. map_of by' fid = Some r'
     \<and> (\<forall>k. map_of (r_markets r') k
             = spec_last_write (map_of (r_markets r) k) (markets_seen fid items) k)
     \<and> (distinct (map fst (r_markets r)) \<longrightarrow> distinct (map fst (r_markets r')))
     \<and> length (markets_seen fid items) = length (filter (\<lambda>it. item_fid it = fid) items)"
  using assms
proof (induction items arbitrary: "by" r)
  case Nil
  then show ?case by (simp add: spec_last_write_def markets_seen_def)
next
  case (Cons it items)
  show ?case
  proof (cases "item_fid it = 0 \<or> map_of by (item_fid it) = None")
    case True
    then have ne: "item_fid it \<noteq> fid" using Cons.prems(2,3) by auto
    from True Cons.prems(1) have "odds_loop items by = Inr by'" by (simp add: Let_def)
    from Cons.IH[OF this Cons.prems(2,3)] show ?thesis
      using ne by (simp add: markets_seen_skip)
  next
    case False
    then obtain ms where ms: "extract_markets (oi_bookmakers it) = Inr ms"
      using Cons.prems(1) by (cases "extract_markets (oi_bookmakers it)") (auto simp: Let_def)
    let ?by1 = "if ms \<noteq> [] then AList.map_entry (item_fid it) (merge_markets ms) by else by"
    from False ms Cons.prems(1) have loop: "odds_loop items ?by1 = Inr by'"
      by (simp add: Let_def split: if_splits)
    have dms: "distinct (map fst ms)" using ms by (rule extract_markets_distinct)
    show ?thesis
    proof (cases "item_fid it = fid")
      case ne: False
      have "map_of ?by1 fid = Some r"
        using Cons.prems(2) ne by (simp add: map_entry_lookup)
      from Cons.IH[OF loop this Cons.prems(3)] show ?thesis
        using ne by (simp add: markets_seen_skip)
    next
      case eq: True
      let ?r1 = "if ms \<noteq> [] then merge_markets ms r else r"
      have l1: "map_of ?by1 fid = Some ?r1"
        using Cons.prems(2) eq by (simp add: map_entry_lookup)
      have m1: "map_of (r_markets ?r1) k
          = (case map_of ms k of
               Some m \<Rightarrow> if m \<noteq> [] then Some m else map_of (r_markets r) k
             | None \<Rightarrow> map_of (r_markets r) k)" for k
        by (cases "ms = []") (simp_all add: merge_markets_lookup[OF dms])
      have d1: "distinct (map fst (r_markets r)) \<Longrightarrow> distinct (map fst (r_markets ?r1))"
        by (simp add: merge_markets_distinct)
      from Cons.IH[OF loop l1 Cons.prems(3)] obtain r' where
        a: "map_of by' fid = Some r'"
        and b: "\<forall>k. map_of (r_markets r') k
             = spec_last_write (map_of (r_markets ?r1) k) (markets_seen fid items) k"
        and c: "distinct (map fst (r_markets ?r1)) \<longrightarrow> distinct (map fst (r_markets r'))"
        and d: "length (markets_seen fid items) = length (filter (\<lambda>it. item_fid it = fid) items)"
        by blast
      have b': "\<forall>k. map_of (r_markets r') k
             = spec_last_write (map_of (r_markets r) k) (markets_seen fid (it # items)) k"
        using b by (simp add: markets_seen_hit[OF eq ms] spec_last_write_Cons m1)
      have d': "length (markets_seen fid (it # items))
                  = length (filter (\<lambda>it. item_fid it = fid) (it # items))"
        using d eq by (simp add: markets_seen_hit[OF eq ms])
      from a b' c d1 d' show ?thesis by blast
    qed
  qed
qed

theorem merge_last_write_wins_witness:
  "odds_loop ex_odds [(1001, ex_record)]
     = Inr [(1001, ex_record\<lparr>r_markets :=
              [(''btts'', [(''yes'', JStr ''1.70''), (''no'', JNull), (''bookmaker'', JStr ''Acme'')])]\<rparr>)]
   \<and> map_of [(1001 :: int, ex_record)] 1001 = Some ex_record
   \<and> (1001 :: int) \<noteq> 0
   \<and> markets_seen 1001 ex_odds
       = [[(''btts'', [(''yes'', JStr ''1.70''), (''no'', JStr ''2.05''), (''bookmaker'', JStr ''Acme'')])],
          [(''btts'', [(''yes'', JStr ''1.70''), (''no'', JNull), (''bookmaker'', JStr ''Acme'')])],
          []]
   \<and> spec_last_write (map_of (r_markets ex_record) ''btts'') (markets_seen 1001 ex_odds) ''btts''
       = Some [(''yes'', JStr ''1.70''), (''no'', JNull), (''bookmaker'', JStr ''Acme'')]
   \<and> (\<exists>r'. map_of [(1001 :: int, ex_record\<lparr>r_markets :=
              [(''btts'', [(''yes'', JStr ''1.70''), (''no'', JNull), (''bookmaker'', JStr ''Acme'')])]\<rparr>)]
              1001 = Some r'
        \<and> (\<forall>k. map_of (r_markets r') k
               = spec_last_write (map_of (r_markets ex_record) k) (markets_seen 1001 ex_odds) k)
        \<and> (distinct (map fst (r_markets ex_record)) \<longrightarrow> distinct (map fst (r_markets r')))
        \<and> length (markets_seen 1001 ex_odds)
            = length (filter (\<lambda>it. item_fid it = 1001) ex_odds))"
proof -
  have a: "odds_loop ex_odds [(1001, ex_record)]
     = Inr [(1001, ex_record\<lparr>r_markets :=
              [(''btts'', [(''yes'', JStr ''1.70''), (''no'', JNull), (''bookmaker'', JStr ''Acme'')])]\<rparr>)]"
    by code_simp
  have b: "map_of [(1001 :: int, ex_record)] 1001 = Some ex_record" by simp
  have c: "(1001 :: int) \<noteq> 0" by simp
  have d: "markets_seen 1001 ex_odds
       = [[(''btts'', [(''yes'', JStr ''1.70''), (''no'', JStr ''2.05''), (''bookmaker'', JStr ''Acme'')])],
          [(''btts'', [(''yes'', JStr ''1.70''), (''no'', JNull), (''bookmaker'', JStr ''Acme'')])],
          []]"
    by code_simp
  have e: "spec_last_write (map_of (r_markets ex_record) ''btts'') (markets_seen 1001 ex_odds) ''btts''
       = Some [(''yes'', JStr ''1.70''), (''no'', JNull), (''bookmaker'', JStr ''Acme'')]"
    by code_simp
  from merge_last_write_wins[OF a b c] a b c d e show ?thesis by blast
qed

end
